theory Spec2Isabelle
  imports
    Main
    "HOL-Library.Char_ord"
    "HOL-Library.List_Lexorder"
    "HOL-Library.Product_Lexorder"
begin

section \<open>Values exchanged with the libraries\<close>

subsection \<open>JSON documents\<close>

text \<open>
  The manager stores \<^verbatim>\<open>json.dumps(conversation)\<close> and reads it back with
  \<^verbatim>\<open>json.loads\<close>. A stored text is represented by the document it denotes: dictionaries
  with string keys (in insertion order), lists, strings, integers, booleans and \<^verbatim>\<open>None\<close>.
  On such documents \<^verbatim>\<open>json.loads(json.dumps(d))\<close> is \<^verbatim>\<open>d\<close>, so the pair is not
  modelled further. A dictionary is an association list whose first binding of a key counts.
\<close>

datatype json =
    JNull
  | JBool bool
  | JInt int
  | JStr string
  | JList "json list"
  | JDict "(string \<times> json) list"

text \<open>Python's truth value of a document, as tested by \<^verbatim>\<open>if not conversation\<close>.\<close>

fun truthy :: "json \<Rightarrow> bool" where
  "truthy JNull = False"
| "truthy (JBool b) = b"
| "truthy (JInt i) = (i \<noteq> 0)"
| "truthy (JStr s) = (s \<noteq> [])"
| "truthy (JList xs) = (xs \<noteq> [])"
| "truthy (JDict d) = (d \<noteq> [])"

subsection \<open>Exceptions\<close>

datatype error =
    ValueError string
  | TypeError
  | KeyError string
  | AttributeError
  | ValidationError
  | ResponseError
  | ModelError string
  | Unmodelled
  | ConversationNotFoundError

text \<open>
  \<^verbatim>\<open>ConversationNotFoundError\<close> is the class the spec names for a conversation that is
  not there. The source defines no such class and no method below raises it; it is here
  so that what \<open>chat\<close> raises can be told apart from it.
  \<^verbatim>\<open>ResponseError\<close> is the Redis client's exception for a command applied to a key that
  holds the wrong kind of value; \<^verbatim>\<open>ValidationError\<close> is the one raised when a
  \<^verbatim>\<open>Message\<close> cannot be built from its fields; \<^verbatim>\<open>ModelError\<close> stands for whatever
  the model client raises. \<^verbatim>\<open>Unmodelled\<close> marks the one branch that is not followed:
  a stored conversation whose \<^verbatim>\<open>id\<close> is not a string (see \<open>_save_conversation\<close>).
\<close>

text \<open>\<^verbatim>\<open>d[k]\<close> on a loaded document: only a dictionary can be indexed by a string.\<close>

fun getitem :: "json \<Rightarrow> string \<Rightarrow> error + json" where
  "getitem (JDict d) k = (case map_of d k of None \<Rightarrow> Inl (KeyError k) | Some v \<Rightarrow> Inr v)"
| "getitem _ k = Inl TypeError"

text \<open>
  \<^verbatim>\<open>d[k] = v\<close> on a Python dictionary: an existing key keeps its place, a new key goes
  to the end.
\<close>

fun dict_set :: "(string \<times> json) list \<Rightarrow> string \<Rightarrow> json \<Rightarrow> (string \<times> json) list" where
  "dict_set [] k v = [(k, v)]"
| "dict_set ((k', v') # d) k v = (if k' = k then (k, v) # d else (k', v') # dict_set d k v)"

fun setitem :: "json \<Rightarrow> string \<Rightarrow> json \<Rightarrow> error + json" where
  "setitem (JDict d) k v = Inr (JDict (dict_set d k v))"
| "setitem _ k v = Inl TypeError"

text \<open>\<^verbatim>\<open>len(x)\<close> on a loaded document.\<close>

fun py_len :: "json \<Rightarrow> error + int" where
  "py_len (JList xs) = Inr (int (length xs))"
| "py_len (JStr s) = Inr (int (length s))"
| "py_len (JDict d) = Inr (int (length d))"
| "py_len _ = Inl TypeError"

subsection \<open>The Redis keyspace\<close>

text \<open>
  One keyspace holds string values (the conversation records) and sorted sets (the
  recency index). A sorted set is a list of (member, score) pairs; scores are the
  timestamps of \<^verbatim>\<open>datetime.now(UTC).timestamp()\<close>, represented by integers (the
  microsecond count), so only their order is used.
\<close>

type_synonym score = int

datatype rvalue =
    RString json
  | RZSet "(string \<times> score) list"

type_synonym redis = "string \<Rightarrow> rvalue option"

definition redis_get :: "redis \<Rightarrow> string \<Rightarrow> error + json option" where
  "redis_get r k =
     (case r k of
        None \<Rightarrow> Inr None
      | Some (RString v) \<Rightarrow> Inr (Some v)
      | Some (RZSet zs) \<Rightarrow> Inl ResponseError)"

definition redis_set :: "redis \<Rightarrow> string \<Rightarrow> json \<Rightarrow> redis" where
  "redis_set r k v = r(k \<mapsto> RString v)"

text \<open>\<^verbatim>\<open>DEL key\<close> removes a key of any kind and returns how many keys it removed.\<close>

definition redis_delete :: "redis \<Rightarrow> string \<Rightarrow> int \<times> redis" where
  "redis_delete r k = (case r k of None \<Rightarrow> (0, r) | Some v \<Rightarrow> (1, r(k := None)))"

text \<open>\<^verbatim>\<open>ZADD key score member\<close>: the member gets the score, whether it is new or not.\<close>

definition zset_add :: "string \<Rightarrow> score \<Rightarrow> (string \<times> score) list \<Rightarrow> (string \<times> score) list" where
  "zset_add m s zs = (m, s) # filter (\<lambda>p. fst p \<noteq> m) zs"

definition redis_zadd :: "redis \<Rightarrow> string \<Rightarrow> string \<Rightarrow> score \<Rightarrow> error + redis" where
  "redis_zadd r k m s =
     (case r k of
        None \<Rightarrow> Inr (r(k \<mapsto> RZSet (zset_add m s [])))
      | Some (RZSet zs) \<Rightarrow> Inr (r(k \<mapsto> RZSet (zset_add m s zs)))
      | Some (RString v) \<Rightarrow> Inl ResponseError)"

text \<open>
  \<^verbatim>\<open>ZREVRANGE key 0 -1\<close>: every member, from the highest score to the lowest; members
  with equal scores in descending lexicographic order.
\<close>

definition zset_revrange :: "(string \<times> score) list \<Rightarrow> string list" where
  "zset_revrange zs = map fst (rev (sort_key (\<lambda>p. (snd p, fst p)) zs))"

definition redis_zrevrange :: "redis \<Rightarrow> string \<Rightarrow> error + string list" where
  "redis_zrevrange r k =
     (case r k of
        None \<Rightarrow> Inr []
      | Some (RZSet zs) \<Rightarrow> Inr (zset_revrange zs)
      | Some (RString v) \<Rightarrow> Inl ResponseError)"

section \<open>Messages\<close>

text \<open>
  Modelled from the spec: the enumeration \<^verbatim>\<open>Role\<close> of \<^verbatim>\<open>agent/models/message.py\<close>.
  The spec's data model gives the roles system, user, assistant and tool; the manager
  itself only names \<^verbatim>\<open>Role.SYSTEM\<close>.
\<close>

datatype Role = SYSTEM | USER | ASSISTANT | TOOL

text \<open>
  Modelled from the spec: the tool call of \<^verbatim>\<open>agent/models/message.py\<close>,
  \<^verbatim>\<open>{id, name, arguments}\<close>, the arguments being a structured payload.
\<close>

record ToolCall =
  call_id :: string
  call_name :: string
  call_arguments :: json

text \<open>
  Modelled from the spec: the class \<^verbatim>\<open>Message\<close> of \<^verbatim>\<open>agent/models/message.py\<close>, with
  the fields of the spec's data model: a role, a nullable content, the tool calls of an
  assistant message (absent otherwise) and the \<^verbatim>\<open>tool_call_id\<close> of a tool result
  (absent otherwise).
\<close>

record Message =
  role :: Role
  content :: "string option"
  tool_calls :: "ToolCall list option"
  tool_call_id :: "string option"

text \<open>
  Modelled from the spec: the value of a member of \<^verbatim>\<open>Role\<close>, the text it is written as
  in a stored document.
\<close>

fun role_value :: "Role \<Rightarrow> string" where
  "role_value SYSTEM = ''system''"
| "role_value USER = ''user''"
| "role_value ASSISTANT = ''assistant''"
| "role_value TOOL = ''tool''"

text \<open>
  Modelled from the spec: an optional text field (\<^verbatim>\<open>content\<close>, \<^verbatim>\<open>tool_call_id\<close>) in
  the document of a message, \<^verbatim>\<open>null\<close> when absent.
\<close>

definition dump_optional :: "string option \<Rightarrow> json" where
  "dump_optional x = (case x of None \<Rightarrow> JNull | Some s \<Rightarrow> JStr s)"

text \<open>
  Modelled from the spec: the document of a tool call, one entry per field.
\<close>

definition dump_tool_call :: "ToolCall \<Rightarrow> json" where
  "dump_tool_call tc =
     JDict [(''id'', JStr (call_id tc)),
            (''name'', JStr (call_name tc)),
            (''arguments'', call_arguments tc)]"

text \<open>
  Modelled from the spec: \<^verbatim>\<open>msg.model_dump()\<close> of class \<^verbatim>\<open>Message\<close>, as
  \<^verbatim>\<open>json.dumps\<close> writes it: one entry per field, \<^verbatim>\<open>null\<close> for an absent one, the role
  as its text, tool calls dumped field by field.
\<close>

definition model_dump :: "Message \<Rightarrow> json" where
  "model_dump m =
     JDict [(''role'', JStr (role_value (role m))),
            (''content'', dump_optional (content m)),
            (''tool_calls'',
               (case tool_calls m of None \<Rightarrow> JNull | Some tcs \<Rightarrow> JList (map dump_tool_call tcs))),
            (''tool_call_id'', dump_optional (tool_call_id m))]"

text \<open>
  A comprehension \<^verbatim>\<open>[f(x) for x in xs]\<close> whose \<^verbatim>\<open>f\<close> may raise: the elements are
  built in order and the first exception ends the comprehension.
\<close>

fun traverse :: "('a \<Rightarrow> error + 'b) \<Rightarrow> 'a list \<Rightarrow> error + 'b list" where
  "traverse f [] = Inr []"
| "traverse f (x # xs) =
     (case f x of
        Inl e \<Rightarrow> Inl e
      | Inr y \<Rightarrow> (case traverse f xs of Inl e \<Rightarrow> Inl e | Inr ys \<Rightarrow> Inr (y # ys)))"

text \<open>
  Modelled from the spec: the validation of the role by class \<^verbatim>\<open>Message\<close>: it must be
  the text of one of the four roles.
\<close>

fun parse_role :: "json \<Rightarrow> error + Role" where
  "parse_role (JStr s) =
     (if s = ''system'' then Inr SYSTEM
      else if s = ''user'' then Inr USER
      else if s = ''assistant'' then Inr ASSISTANT
      else if s = ''tool'' then Inr TOOL
      else Inl ValidationError)"
| "parse_role _ = Inl ValidationError"

text \<open>
  Modelled from the spec: the validation of an optional text field by class
  \<^verbatim>\<open>Message\<close>: a missing entry or \<^verbatim>\<open>null\<close> is an absent field, a string is its value.
\<close>

fun parse_optional :: "json option \<Rightarrow> error + string option" where
  "parse_optional None = Inr None"
| "parse_optional (Some JNull) = Inr None"
| "parse_optional (Some (JStr s)) = Inr (Some s)"
| "parse_optional (Some _) = Inl ValidationError"

text \<open>
  Modelled from the spec: the validation of one tool call by class \<^verbatim>\<open>Message\<close>: a
  dictionary with a string \<^verbatim>\<open>id\<close>, a string \<^verbatim>\<open>name\<close> and \<^verbatim>\<open>arguments\<close>.
\<close>

fun parse_tool_call :: "json \<Rightarrow> error + ToolCall" where
  "parse_tool_call (JDict d) =
     (case (map_of d ''id'', map_of d ''name'', map_of d ''arguments'') of
        (Some (JStr i), Some (JStr n), Some a) \<Rightarrow>
          Inr \<lparr>call_id = i, call_name = n, call_arguments = a\<rparr>
      | _ \<Rightarrow> Inl ValidationError)"
| "parse_tool_call _ = Inl ValidationError"

text \<open>
  Modelled from the spec: the validation of \<^verbatim>\<open>tool_calls\<close> by class \<^verbatim>\<open>Message\<close>: absent,
  or a list of tool calls.
\<close>

fun parse_tool_calls :: "json option \<Rightarrow> error + ToolCall list option" where
  "parse_tool_calls None = Inr None"
| "parse_tool_calls (Some JNull) = Inr None"
| "parse_tool_calls (Some (JList xs)) =
     (case traverse parse_tool_call xs of Inl e \<Rightarrow> Inl e | Inr tcs \<Rightarrow> Inr (Some tcs))"
| "parse_tool_calls (Some _) = Inl ValidationError"

text \<open>
  Modelled from the spec: \<^verbatim>\<open>Message(**msg_data)\<close>, the constructor of class
  \<^verbatim>\<open>Message\<close> applied to a loaded document. The role is required; the other fields
  default to absent; a field of the wrong shape is a \<^verbatim>\<open>ValidationError\<close>; entries the
  class does not declare are ignored. \<^verbatim>\<open>**msg_data\<close> itself raises \<^verbatim>\<open>TypeError\<close> unless
  \<^verbatim>\<open>msg_data\<close> is a dictionary.
\<close>

fun Message_init :: "json \<Rightarrow> error + Message" where
  "Message_init (JDict d) =
     (case map_of d ''role'' of
        None \<Rightarrow> Inl ValidationError
      | Some rj \<Rightarrow>
          (case parse_role rj of
             Inl e \<Rightarrow> Inl e
           | Inr ro \<Rightarrow>
               (case parse_optional (map_of d ''content'') of
                  Inl e \<Rightarrow> Inl e
                | Inr c \<Rightarrow>
                    (case parse_tool_calls (map_of d ''tool_calls'') of
                       Inl e \<Rightarrow> Inl e
                     | Inr tcs \<Rightarrow>
                         (case parse_optional (map_of d ''tool_call_id'') of
                            Inl e \<Rightarrow> Inl e
                          | Inr tid \<Rightarrow>
                              Inr \<lparr>role = ro, content = c, tool_calls = tcs,
                                   tool_call_id = tid\<rparr>)))))"
| "Message_init _ = Inl TypeError"

section \<open>The system prompt (\<^verbatim>\<open>agent/prompts.py\<close>)\<close>

definition SYSTEM_PROMPT :: string where
  "SYSTEM_PROMPT =
     ''\<newline>'' @
     ''You are a User Management Agent designed to assist with managing user data through a User Service. \<newline>'' @
     ''Your primary role is to perform tasks such as creating, reading, updating, deleting, and searching for user information based on the commands you receive.\<newline>'' @
     ''When responding to queries, please adhere to the following guidelines:\<newline>'' @
     ''1. Always provide structured and clear responses, using bullet points or numbered lists where appropriate.\<newline>'' @
     ''2. Confirm actions taken, such as user creation or updates, with concise summaries. \<newline>'' @
     ''3. Handle errors gracefully by providing informative messages that help users understand what went wrong and how to fix it.\<newline>'' @
     ''4. Maintain a professional and courteous tone in all interactions.\<newline>'' @
     ''5. Only respond to queries related to user management. If a query is outside this domain, politely decline to answer.\<newline>''"

text \<open>\<^verbatim>\<open>Message(role=Role.SYSTEM, content=SYSTEM_PROMPT)\<close>\<close>

definition system_message :: Message where
  "system_message =
     \<lparr>role = SYSTEM, content = Some SYSTEM_PROMPT, tool_calls = None, tool_call_id = None\<rparr>"

section \<open>The model client\<close>

text \<open>
  The manager receives a \<^verbatim>\<open>DialClient\<close> and calls two of its methods; the client is a
  parameter of the model. \<^verbatim>\<open>response(messages)\<close> either raises or returns the
  assistant's message, having changed the list \<^verbatim>\<open>messages\<close> in place: the result
  carries the list as the call leaves it. \<^verbatim>\<open>stream_response(messages)\<close> is an
  asynchronous generator: it yields finitely many chunks and then either raises or ends,
  again leaving \<^verbatim>\<open>messages\<close> changed in place.
\<close>

record DialClient =
  response :: "Message list \<Rightarrow> error + (Message \<times> Message list)"
  stream_response :: "Message list \<Rightarrow> string list \<times> (error + Message list)"

section \<open>The conversation manager (\<^verbatim>\<open>agent/conversation_manager.py\<close>)\<close>

definition CONVERSATION_PREFIX :: string where
  "CONVERSATION_PREFIX = ''conversation:''"

definition CONVERSATION_LIST_KEY :: string where
  "CONVERSATION_LIST_KEY = ''conversations:list''"

text \<open>\<^verbatim>\<open>f"{CONVERSATION_PREFIX}{conversation_id}"\<close>\<close>

definition conversation_key :: "string \<Rightarrow> string" where
  "conversation_key conversation_id = CONVERSATION_PREFIX @ conversation_id"

text \<open>
  Every method takes the keyspace and returns its outcome together with the keyspace it
  leaves behind, also when it raises. The identifier drawn by \<^verbatim>\<open>uuid.uuid4()\<close> and the
  readings of the clock (\<^verbatim>\<open>isoformat()\<close> text and \<^verbatim>\<open>timestamp()\<close> score, which the
  source takes from two separate calls of \<^verbatim>\<open>datetime.now\<close>) are arguments.
\<close>

definition create_conversation ::
  "string \<Rightarrow> string \<Rightarrow> score \<Rightarrow> json \<Rightarrow> redis \<Rightarrow> (error + json) \<times> redis" where
  "create_conversation conversation_id current_time now_ts title r =
     (let conversation =
            JDict [(''id'', JStr conversation_id),
                   (''title'', title),
                   (''messages'', JList []),
                   (''created_at'', JStr current_time),
                   (''updated_at'', JStr current_time)];
          r1 = redis_set r (conversation_key conversation_id) conversation
      in case redis_zadd r1 CONVERSATION_LIST_KEY conversation_id now_ts of
           Inl e \<Rightarrow> (Inl e, r1)
         | Inr r2 \<Rightarrow> (Inr conversation, r2))"

text \<open>The summary dictionary built in the loop of \<open>list_conversations\<close>.\<close>

definition summary :: "json \<Rightarrow> error + json" where
  "summary conv =
     (case getitem conv ''id'' of Inl e \<Rightarrow> Inl e | Inr i \<Rightarrow>
     (case getitem conv ''title'' of Inl e \<Rightarrow> Inl e | Inr t \<Rightarrow>
     (case getitem conv ''created_at'' of Inl e \<Rightarrow> Inl e | Inr c \<Rightarrow>
     (case getitem conv ''updated_at'' of Inl e \<Rightarrow> Inl e | Inr u \<Rightarrow>
     (case getitem conv ''messages'' of Inl e \<Rightarrow> Inl e | Inr ms \<Rightarrow>
     (case py_len ms of Inl e \<Rightarrow> Inl e | Inr n \<Rightarrow>
        Inr (JDict [(''id'', i), (''title'', t), (''created_at'', c),
                    (''updated_at'', u), (''message_count'', JInt n)])))))))"

text \<open>
  The loop over \<open>conversation_ids\<close>, with the list \<open>conversations\<close> built so far. A stored
  text is never empty, so \<^verbatim>\<open>if conv_data\<close> tests whether the key holds a record.
\<close>

fun list_loop :: "redis \<Rightarrow> string list \<Rightarrow> json list \<Rightarrow> error + json list" where
  "list_loop r [] conversations = Inr conversations"
| "list_loop r (conversation_id # ids) conversations =
     (case redis_get r (conversation_key conversation_id) of
        Inl e \<Rightarrow> Inl e
      | Inr None \<Rightarrow> list_loop r ids conversations
      | Inr (Some conv) \<Rightarrow>
          (case summary conv of
             Inl e \<Rightarrow> Inl e
           | Inr s \<Rightarrow> list_loop r ids (conversations @ [s])))"

definition list_conversations :: "redis \<Rightarrow> error + json list" where
  "list_conversations r =
     (case redis_zrevrange r CONVERSATION_LIST_KEY of
        Inl e \<Rightarrow> Inl e
      | Inr conversation_ids \<Rightarrow> list_loop r conversation_ids [])"

definition get_conversation :: "string \<Rightarrow> redis \<Rightarrow> error + json option" where
  "get_conversation conversation_id r =
     (case redis_get r (conversation_key conversation_id) of
        Inl e \<Rightarrow> Inl e
      | Inr None \<Rightarrow> Inr None
      | Inr (Some conversation) \<Rightarrow> Inr (Some conversation))"

definition delete_conversation :: "string \<Rightarrow> redis \<Rightarrow> bool \<times> redis" where
  "delete_conversation conversation_id r =
     (case redis_delete r (conversation_key conversation_id) of
        (deleted_count, r') \<Rightarrow> (deleted_count > 0, r'))"

text \<open>
  \<open>_save_conversation\<close>: the key is built from the record's own \<^verbatim>\<open>id\<close>. The record is
  written first, so a failing \<^verbatim>\<open>zadd\<close> leaves it written. Only a string \<^verbatim>\<open>id\<close> is
  followed; the manager never writes another kind.
\<close>

definition save_conversation :: "score \<Rightarrow> json \<Rightarrow> redis \<Rightarrow> (error + unit) \<times> redis" where
  "save_conversation now_ts conversation r =
     (case getitem conversation ''id'' of
        Inl e \<Rightarrow> (Inl e, r)
      | Inr (JStr conversation_id) \<Rightarrow>
          (let r1 = redis_set r (conversation_key conversation_id) conversation
           in case redis_zadd r1 CONVERSATION_LIST_KEY conversation_id now_ts of
                Inl e \<Rightarrow> (Inl e, r1)
              | Inr r2 \<Rightarrow> (Inr (), r2))
      | Inr _ \<Rightarrow> (Inl Unmodelled, r))"

text \<open>
  \<open>_save_conversation_messages\<close>: \<^verbatim>\<open>json.loads(None)\<close> raises \<^verbatim>\<open>TypeError\<close>, and so
  does an item assignment on a document that is not a dictionary.
\<close>

definition save_conversation_messages ::
  "string \<Rightarrow> score \<Rightarrow> string \<Rightarrow> Message list \<Rightarrow> redis \<Rightarrow> (error + unit) \<times> redis" where
  "save_conversation_messages now_iso now_ts conversation_id messages r =
     (case redis_get r (conversation_key conversation_id) of
        Inl e \<Rightarrow> (Inl e, r)
      | Inr None \<Rightarrow> (Inl TypeError, r)
      | Inr (Some conversation) \<Rightarrow>
          (case setitem conversation ''messages'' (JList (map model_dump messages)) of
             Inl e \<Rightarrow> (Inl e, r)
           | Inr conversation1 \<Rightarrow>
               (case setitem conversation1 ''updated_at'' (JStr now_iso) of
                  Inl e \<Rightarrow> (Inl e, r)
                | Inr conversation2 \<Rightarrow> save_conversation now_ts conversation2 r)))"

text \<open>The dictionary returned by \<open>_non_stream_chat\<close>.\<close>

record ChatReply =
  reply_content :: string
  reply_conversation_id :: string

definition non_stream_chat ::
  "DialClient \<Rightarrow> string \<Rightarrow> score \<Rightarrow> string \<Rightarrow> Message list \<Rightarrow> redis
     \<Rightarrow> (error + ChatReply) \<times> redis" where
  "non_stream_chat dial_client now_iso now_ts conversation_id messages r =
     (case response dial_client messages of
        Inl e \<Rightarrow> (Inl e, r)
      | Inr (ai_message, messages') \<Rightarrow>
          (case save_conversation_messages now_iso now_ts conversation_id messages' r of
             (Inl e, r') \<Rightarrow> (Inl e, r')
           | (Inr u, r') \<Rightarrow>
               (Inr \<lparr>reply_content = (case content ai_message of None \<Rightarrow> [] | Some c \<Rightarrow> c),
                     reply_conversation_id = conversation_id\<rparr>, r')))"

subsection \<open>The streaming generator\<close>

text \<open>
  What \<open>_stream_chat\<close> yields: \<open>DataFrame d\<close> is the text
  \<^verbatim>\<open>f"data: {json.dumps(d)}\n\n"\<close>, \<open>ModelChunk c\<close> a chunk passed on from the model
  client.
\<close>

datatype chunk =
    DataFrame json
  | ModelChunk string

text \<open>
  \<open>_stream_chat\<close> is an asynchronous generator: calling it runs nothing, and each
  \<^verbatim>\<open>__anext__\<close> resumes the body up to its next \<^verbatim>\<open>yield\<close>, its end or an exception.
  The generator object holds the arguments and the place where the body is suspended:
  not started, at the first \<^verbatim>\<open>yield\<close>, at \<^verbatim>\<open>yield chunk\<close> inside the loop (with
  what the client's stream has still to deliver and how it will end), or finished.
\<close>

datatype phase =
    Created
  | AtFirstYield
  | InLoop "string list" "error + Message list"
  | Closed

record StreamGen =
  gen_conversation_id :: string
  gen_messages :: "Message list"
  gen_phase :: phase

datatype anext_result =
    Yielded chunk
  | StopAsyncIteration
  | Raised error

text \<open>Calling \<open>_stream_chat\<close> makes the generator object; nothing of the body runs.\<close>

definition stream_chat :: "string \<Rightarrow> Message list \<Rightarrow> StreamGen" where
  "stream_chat conversation_id messages =
     \<lparr>gen_conversation_id = conversation_id, gen_messages = messages, gen_phase = Created\<rparr>"

text \<open>
  The end of the \<^verbatim>\<open>async for\<close>: an exception of the client's stream leaves the body;
  otherwise the messages are saved and the generator ends.
\<close>

definition stream_finish ::
  "string \<Rightarrow> score \<Rightarrow> StreamGen \<Rightarrow> error + Message list \<Rightarrow> redis
     \<Rightarrow> (anext_result \<times> StreamGen) \<times> redis" where
  "stream_finish now_iso now_ts g outcome r =
     (case outcome of
        Inl e \<Rightarrow> ((Raised e, g\<lparr>gen_phase := Closed\<rparr>), r)
      | Inr messages' \<Rightarrow>
          (case save_conversation_messages now_iso now_ts (gen_conversation_id g) messages' r of
             (Inl e, r') \<Rightarrow> ((Raised e, g\<lparr>gen_phase := Closed\<rparr>), r')
           | (Inr u, r') \<Rightarrow> ((StopAsyncIteration, g\<lparr>gen_phase := Closed\<rparr>), r')))"

text \<open>One turn of the \<^verbatim>\<open>async for\<close>: the next chunk is yielded, or the loop ends.\<close>

definition stream_loop ::
  "string \<Rightarrow> score \<Rightarrow> StreamGen \<Rightarrow> string list \<Rightarrow> error + Message list \<Rightarrow> redis
     \<Rightarrow> (anext_result \<times> StreamGen) \<times> redis" where
  "stream_loop now_iso now_ts g chunks outcome r =
     (case chunks of
        c # rest \<Rightarrow> ((Yielded (ModelChunk c), g\<lparr>gen_phase := InLoop rest outcome\<rparr>), r)
      | [] \<Rightarrow> stream_finish now_iso now_ts g outcome r)"

definition anext ::
  "DialClient \<Rightarrow> string \<Rightarrow> score \<Rightarrow> StreamGen \<Rightarrow> redis
     \<Rightarrow> (anext_result \<times> StreamGen) \<times> redis" where
  "anext dial_client now_iso now_ts g r =
     (case gen_phase g of
        Created \<Rightarrow>
          ((Yielded (DataFrame (JDict [(''conversation_id'', JStr (gen_conversation_id g))])),
            g\<lparr>gen_phase := AtFirstYield\<rparr>), r)
      | AtFirstYield \<Rightarrow>
          (case stream_response dial_client (gen_messages g) of
             (chunks, outcome) \<Rightarrow> stream_loop now_iso now_ts g chunks outcome r)
      | InLoop chunks outcome \<Rightarrow> stream_loop now_iso now_ts g chunks outcome r
      | Closed \<Rightarrow> ((StopAsyncIteration, g), r))"

text \<open>
  The caller's \<^verbatim>\<open>async for chunk in result\<close>: the generator is resumed until it ends
  or raises. The result is what was yielded, the exception if one ended the iteration,
  and the keyspace.
\<close>

definition steps_left :: "DialClient \<Rightarrow> StreamGen \<Rightarrow> nat" where
  "steps_left dial_client g =
     (case gen_phase g of
        Created \<Rightarrow> length (fst (stream_response dial_client (gen_messages g))) + 2
      | AtFirstYield \<Rightarrow> length (fst (stream_response dial_client (gen_messages g))) + 1
      | InLoop chunks outcome \<Rightarrow> length chunks
      | Closed \<Rightarrow> 0)"

function drain ::
  "DialClient \<Rightarrow> string \<Rightarrow> score \<Rightarrow> StreamGen \<Rightarrow> redis
     \<Rightarrow> (chunk list \<times> error option) \<times> redis" where
  "drain dial_client now_iso now_ts g r =
     (case anext dial_client now_iso now_ts g r of
        ((Yielded c, g'), r') \<Rightarrow>
          (case drain dial_client now_iso now_ts g' r' of
             ((cs, e), r'') \<Rightarrow> ((c # cs, e), r''))
      | ((StopAsyncIteration, g'), r') \<Rightarrow> (([], None), r')
      | ((Raised e, g'), r') \<Rightarrow> (([], Some e), r'))"
  by pat_completeness auto
termination
  by (relation "measure (\<lambda>(dial_client, now_iso, now_ts, g, r). steps_left dial_client g)")
     (auto simp: anext_def stream_loop_def stream_finish_def steps_left_def
        split: phase.splits list.splits prod.splits sum.splits)

subsection \<open>\<open>chat\<close>\<close>

text \<open>\<^verbatim>\<open>conversation.get("messages", [])\<close>: only a dictionary has \<^verbatim>\<open>get\<close>.\<close>

definition get_messages :: "json \<Rightarrow> error + json" where
  "get_messages conversation =
     (case conversation of
        JDict d \<Rightarrow> Inr (case map_of d ''messages'' of None \<Rightarrow> JList [] | Some v \<Rightarrow> v)
      | _ \<Rightarrow> Inl AttributeError)"

text \<open>
  \<^verbatim>\<open>for msg_data in x\<close> on a loaded document: a list gives its elements, a string its
  characters, a dictionary its keys, anything else raises.
\<close>

fun iterate :: "json \<Rightarrow> error + json list" where
  "iterate (JList xs) = Inr xs"
| "iterate (JStr s) = Inr (map (\<lambda>c. JStr [c]) s)"
| "iterate (JDict d) = Inr (map (\<lambda>p. JStr (fst p)) d)"
| "iterate _ = Inl TypeError"

text \<open>
  \<^verbatim>\<open>[Message(**msg_data) for msg_data in conversation.get("messages", [])]\<close>
\<close>

definition reconstruct_messages :: "json \<Rightarrow> error + Message list" where
  "reconstruct_messages conversation =
     (case get_messages conversation of
        Inl e \<Rightarrow> Inl e
      | Inr stored \<Rightarrow>
          (case iterate stored of
             Inl e \<Rightarrow> Inl e
           | Inr items \<Rightarrow> traverse Message_init items))"

datatype ChatResult =
    Reply ChatReply
  | Stream StreamGen

text \<open>
  \<open>chat\<close>. \<^verbatim>\<open>if not conversation\<close> holds for a missing record (the first
  \<^verbatim>\<open>ValueError\<close> below) and for a record whose document is false in Python (the
  second). With \<open>stream\<close> the generator object is returned unstarted.
\<close>

definition chat ::
  "DialClient \<Rightarrow> string \<Rightarrow> score \<Rightarrow> Message \<Rightarrow> string \<Rightarrow> bool \<Rightarrow> redis
     \<Rightarrow> (error + ChatResult) \<times> redis" where
  "chat dial_client now_iso now_ts user_message conversation_id stream r =
     (case get_conversation conversation_id r of
        Inl e \<Rightarrow> (Inl e, r)
      | Inr None \<Rightarrow>
          (Inl (ValueError (''No conversation found with id: '' @ conversation_id)), r)
      | Inr (Some conversation) \<Rightarrow>
          (if \<not> truthy conversation
           then (Inl (ValueError (''No conversation found with id: '' @ conversation_id)), r)
           else
             (case reconstruct_messages conversation of
                Inl e \<Rightarrow> (Inl e, r)
              | Inr messages \<Rightarrow>
                  (let messages1 = (if messages = [] then messages @ [system_message]
                                    else messages);
                       messages2 = messages1 @ [user_message]
                   in if stream
                      then (Inr (Stream (stream_chat conversation_id messages2)), r)
                      else
                        (case non_stream_chat dial_client now_iso now_ts conversation_id
                                messages2 r of
                           (Inl e, r') \<Rightarrow> (Inl e, r')
                         | (Inr reply, r') \<Rightarrow> (Inr (Reply reply), r'))))))"

section \<open>Notions used in the statements\<close>

text \<open>
  The caller resuming the generator \<open>n\<close> times: the results of the \<open>n\<close> calls of
  \<^verbatim>\<open>__anext__\<close>, the generator and the keyspace after them.
\<close>

fun resume ::
  "DialClient \<Rightarrow> string \<Rightarrow> score \<Rightarrow> nat \<Rightarrow> StreamGen \<Rightarrow> redis
     \<Rightarrow> (anext_result list \<times> StreamGen) \<times> redis" where
  "resume dial_client now_iso now_ts 0 g r = (([], g), r)"
| "resume dial_client now_iso now_ts (Suc n) g r =
     (case anext dial_client now_iso now_ts g r of
        ((res, g'), r') \<Rightarrow>
          (case resume dial_client now_iso now_ts n g' r' of
             ((rs, g''), r'') \<Rightarrow> ((res # rs, g''), r'')))"

text \<open>The exception carried by a result of \<^verbatim>\<open>__anext__\<close>, if it is one.\<close>

definition raised :: "anext_result \<Rightarrow> error option" where
  "raised res = (case res of Raised e \<Rightarrow> Some e | _ \<Rightarrow> None)"

text \<open>
  The key of the recency index holds a sorted set or nothing. Redis keeps the members of
  a sorted set distinct.
\<close>

definition index_ok :: "redis \<Rightarrow> bool" where
  "index_ok r =
     (case r CONVERSATION_LIST_KEY of
        None \<Rightarrow> True
      | Some (RZSet zs) \<Rightarrow> distinct (map fst zs)
      | Some (RString v) \<Rightarrow> False)"

text \<open>
  The record that \<open>_save_conversation_messages\<close> writes in place of a record: its
  \<^verbatim>\<open>messages\<close> and \<^verbatim>\<open>updated_at\<close> entries are replaced.
\<close>

definition saved_record :: "string \<Rightarrow> Message list \<Rightarrow> json \<Rightarrow> json" where
  "saved_record now_iso messages conversation =
     (case conversation of
        JDict d \<Rightarrow>
          JDict (dict_set (dict_set d ''messages'' (JList (map model_dump messages)))
                   ''updated_at'' (JStr now_iso))
      | _ \<Rightarrow> conversation)"

text \<open>
  A record as the manager writes it under the identifier \<open>cid\<close>: a dictionary whose
  \<^verbatim>\<open>id\<close> is \<open>cid\<close>, with a title, the two times, and a list of messages each of which
  \<^verbatim>\<open>Message(**msg_data)\<close> accepts.
\<close>

definition wf_conversation :: "string \<Rightarrow> json \<Rightarrow> bool" where
  "wf_conversation cid conversation =
     (case conversation of
        JDict d \<Rightarrow>
          map_of d ''id'' = Some (JStr cid)
          \<and> map_of d ''title'' \<noteq> None
          \<and> map_of d ''created_at'' \<noteq> None
          \<and> map_of d ''updated_at'' \<noteq> None
          \<and> (case map_of d ''messages'' of
                Some (JList ms) \<Rightarrow> \<not> isl (traverse Message_init ms)
              | _ \<Rightarrow> False)
      | _ \<Rightarrow> False)"

text \<open>The key of \<open>cid\<close> holds such a record, or nothing.\<close>

definition record_ok :: "redis \<Rightarrow> string \<Rightarrow> bool" where
  "record_ok r cid =
     (case r (conversation_key cid) of
        None \<Rightarrow> True
      | Some (RString conversation) \<Rightarrow> wf_conversation cid conversation
      | Some (RZSet zs) \<Rightarrow> False)"

text \<open>The members of the recency index with their scores, and the score of a member.\<close>

definition index_entries :: "redis \<Rightarrow> (string \<times> score) list" where
  "index_entries r = (case r CONVERSATION_LIST_KEY of Some (RZSet zs) \<Rightarrow> zs | _ \<Rightarrow> [])"

definition index_score :: "redis \<Rightarrow> string \<Rightarrow> score option" where
  "index_score r cid = map_of (index_entries r) cid"

text \<open>Both identifiers are in the index and the first has at least the score of the second.\<close>

definition not_older :: "redis \<Rightarrow> string \<Rightarrow> string \<Rightarrow> bool" where
  "not_older r a b =
     (case (index_score r a, index_score r b) of
        (Some sa, Some sb) \<Rightarrow> sb \<le> sa
      | _ \<Rightarrow> False)"

text \<open>
  The index is a sorted set and every indexed identifier has a well-formed record or none.
\<close>

definition keyspace_ok :: "redis \<Rightarrow> bool" where
  "keyspace_ok r = (index_ok r \<and> list_all (record_ok r) (map fst (index_entries r)))"

text \<open>
  The identifiers a listing reports: the indexed ones that still have a record, in the
  order of \<^verbatim>\<open>zrevrange\<close>.
\<close>

definition has_record :: "redis \<Rightarrow> string \<Rightarrow> bool" where
  "has_record r cid = (r (conversation_key cid) \<noteq> None)"

definition listed :: "redis \<Rightarrow> string list" where
  "listed r = filter (has_record r) (zset_revrange (index_entries r))"

text \<open>\<open>s\<close> is the summary of the record stored under \<open>cid\<close>, and names \<open>cid\<close>.\<close>

definition describes :: "redis \<Rightarrow> string \<Rightarrow> json \<Rightarrow> bool" where
  "describes r cid s =
     (case r (conversation_key cid) of
        Some (RString conversation) \<Rightarrow>
          summary conversation = Inr s \<and> getitem s ''id'' = Inr (JStr cid)
      | _ \<Rightarrow> False)"

text \<open>
  What holds of every keyspace the manager produces from the empty one: the index is a
  sorted set, and every other key is the key of an indexed identifier and holds a
  well-formed record of it.
\<close>

definition keyspace_inv :: "redis \<Rightarrow> bool" where
  "keyspace_inv r \<longleftrightarrow>
     index_ok r
     \<and> (\<forall>k v. r k = Some v \<longrightarrow>
           k = CONVERSATION_LIST_KEY
           \<or> (\<exists>cid conversation.
                 k = conversation_key cid \<and> v = RString conversation
                 \<and> wf_conversation cid conversation
                 \<and> cid \<in> fst ` set (index_entries r)))"

text \<open>
  The summary of a conversation that has just been created.
\<close>

definition fresh_summary :: "string \<Rightarrow> string \<Rightarrow> json \<Rightarrow> json" where
  "fresh_summary cid now_iso title =
     JDict [(''id'', JStr cid), (''title'', title), (''created_at'', JStr now_iso),
            (''updated_at'', JStr now_iso), (''message_count'', JInt 0)]"

section \<open>Example values\<close>

text \<open>A user message, an answer, two model clients and a keyspace with one conversation.\<close>

definition example_user_message :: Message where
  "example_user_message =
     \<lparr>role = USER, content = Some ''list all users'', tool_calls = None, tool_call_id = None\<rparr>"

definition example_answer :: Message where
  "example_answer =
     \<lparr>role = ASSISTANT, content = Some ''There is one user.'', tool_calls = None,
      tool_call_id = None\<rparr>"

definition answering_client :: DialClient where
  "answering_client =
     \<lparr>response = (\<lambda>messages. Inr (example_answer, messages @ [example_answer])),
      stream_response = (\<lambda>messages. ([''There is '', ''one user.''],
                                       Inr (messages @ [example_answer])))\<rparr>"

definition failing_client :: DialClient where
  "failing_client =
     \<lparr>response = (\<lambda>messages. Inl (ModelError ''unavailable'')),
      stream_response = (\<lambda>messages. ([], Inl (ModelError ''unavailable'')))\<rparr>"

definition example_conversation :: json where
  "example_conversation =
     JDict [(''id'', JStr ''c1''), (''title'', JStr ''First''), (''messages'', JList []),
            (''created_at'', JStr ''2025-01-01T00:00:00+00:00''),
            (''updated_at'', JStr ''2025-01-01T00:00:00+00:00'')]"

definition example_keyspace :: redis where
  "example_keyspace =
     [conversation_key ''c1'' \<mapsto> RString example_conversation,
      CONVERSATION_LIST_KEY \<mapsto> RZSet [(''c1'', 1735689600000000)]]"

definition example_tool_request :: Message where
  "example_tool_request =
     \<lparr>role = ASSISTANT, content = None,
      tool_calls = Some [\<lparr>call_id = ''call_1'', call_name = ''list_users'',
                          call_arguments = JDict [(''limit'', JInt 10)]\<rparr>],
      tool_call_id = None\<rparr>"

definition example_tool_result :: Message where
  "example_tool_result =
     \<lparr>role = TOOL, content = Some ''1 user: A'', tool_calls = None,
      tool_call_id = Some ''call_1''\<rparr>"

definition example_follow_up :: Message where
  "example_follow_up =
     \<lparr>role = USER, content = Some ''delete user A'', tool_calls = None, tool_call_id = None\<rparr>"

definition example_history :: "Message list" where
  "example_history =
     [system_message, example_user_message, example_tool_request, example_tool_result,
      example_answer]"

definition example_stream :: StreamGen where
  "example_stream =
     \<lparr>gen_conversation_id = ''c1'',
      gen_messages = [system_message, example_user_message],
      gen_phase = Created\<rparr>"

text \<open>
  A keyspace with two conversations and an index that still lists a third one, \<open>c0\<close>,
  whose record has been deleted.
\<close>

definition second_conversation :: json where
  "second_conversation =
     JDict [(''id'', JStr ''c2''), (''title'', JNull),
            (''messages'', JList (map model_dump [system_message, example_user_message])),
            (''created_at'', JStr ''2025-01-02T00:00:00+00:00''),
            (''updated_at'', JStr ''2025-01-02T00:00:09+00:00'')]"

definition listing_keyspace :: redis where
  "listing_keyspace =
     [conversation_key ''c1'' \<mapsto> RString example_conversation,
      conversation_key ''c2'' \<mapsto> RString second_conversation,
      CONVERSATION_LIST_KEY \<mapsto>
        RZSet [(''c1'', 1735689600000000), (''c0'', 1735600000000000),
               (''c2'', 1735776009000000)]]"

section \<open>Keys\<close>

text \<open>
  Record keys are injective in the identifier, and no record key is the key of the
  recency index: \<^verbatim>\<open>conversation:\<close> and \<^verbatim>\<open>conversations:list\<close> differ at the
  thirteenth character.
\<close>

lemma conversation_key_inject [simp]:
  "conversation_key a = conversation_key b \<longleftrightarrow> a = b"
  by (simp add: conversation_key_def)

lemma conversation_key_not_list_key [simp]:
  "conversation_key cid \<noteq> CONVERSATION_LIST_KEY"
  "CONVERSATION_LIST_KEY \<noteq> conversation_key cid"
  by (auto simp: conversation_key_def CONVERSATION_PREFIX_def CONVERSATION_LIST_KEY_def)

lemma example_get: "get_conversation ''c1'' example_keyspace = Inr (Some example_conversation)"
  by (simp add: get_conversation_def redis_get_def example_keyspace_def)

lemma example_truthy: "truthy example_conversation"
  by (simp add: example_conversation_def)

lemma example_reconstruct: "reconstruct_messages example_conversation = Inr []"
  by (simp add: reconstruct_messages_def get_messages_def example_conversation_def)

section \<open>Deleting a conversation\<close>

text \<open>
  C8: \<open>delete_conversation\<close> returns true exactly when the key of the identifier held a
  record when it was called, and afterwards the key holds nothing; so deleting an
  existing conversation twice returns true and then false.
\<close>

theorem delete_conversation_returns_existed:
  "fst (delete_conversation cid r) = (r (conversation_key cid) \<noteq> None)
   \<and> snd (delete_conversation cid r) (conversation_key cid) = None
   \<and> (r (conversation_key cid) \<noteq> None \<longrightarrow>
        (case delete_conversation cid r of
           (first, r') \<Rightarrow> first \<and> \<not> fst (delete_conversation cid r')))"
  by (auto simp: delete_conversation_def redis_delete_def split: option.splits)

theorem delete_conversation_returns_existed_witness:
  "example_keyspace (conversation_key ''c1'') \<noteq> None
   \<and> (case delete_conversation ''c1'' example_keyspace of
         (first, r') \<Rightarrow> first \<and> \<not> fst (delete_conversation ''c1'' r'))"
proof -
  have present: "example_keyspace (conversation_key ''c1'') \<noteq> None"
    by (simp add: example_keyspace_def)
  show ?thesis
    using present delete_conversation_returns_existed [of "''c1''" example_keyspace]
    by simp
qed

text \<open>
  C9: \<open>delete_conversation\<close> changes nothing but the key \<^verbatim>\<open>"conversation:" + id\<close>: the
  sorted set under \<open>CONVERSATION_LIST_KEY\<close> is the same after every delete, so
  \<^verbatim>\<open>zrevrange\<close> still returns the identifier of a deleted conversation.
\<close>

theorem delete_conversation_keeps_index:
  "snd (delete_conversation cid r) CONVERSATION_LIST_KEY = r CONVERSATION_LIST_KEY
   \<and> redis_zrevrange (snd (delete_conversation cid r)) CONVERSATION_LIST_KEY
       = redis_zrevrange r CONVERSATION_LIST_KEY
   \<and> (\<forall>k. k \<noteq> conversation_key cid \<longrightarrow> snd (delete_conversation cid r) k = r k)"
  by (auto simp: delete_conversation_def redis_delete_def redis_zrevrange_def split: option.splits)

theorem delete_conversation_keeps_index_witness:
  "CONVERSATION_LIST_KEY \<noteq> conversation_key ''c1''
   \<and> fst (delete_conversation ''c1'' example_keyspace)
   \<and> redis_zrevrange (snd (delete_conversation ''c1'' example_keyspace)) CONVERSATION_LIST_KEY
       = Inr [''c1'']"
proof -
  have listed: "redis_zrevrange example_keyspace CONVERSATION_LIST_KEY = Inr [''c1'']"
    by (simp add: redis_zrevrange_def example_keyspace_def zset_revrange_def)
  have deleted: "fst (delete_conversation ''c1'' example_keyspace)"
    by (simp add: delete_conversation_def redis_delete_def example_keyspace_def)
  show ?thesis
    using listed deleted delete_conversation_keeps_index [of "''c1''" example_keyspace]
    by simp
qed

section \<open>Failures of a chat turn\<close>

text \<open>
  C2, as the source has it: when the key of the identifier holds no record, \<open>chat\<close>
  raises a plain \<^verbatim>\<open>ValueError\<close> with the message
  \<^verbatim>\<open>No conversation found with id: <id>\<close>, returns no result, and leaves the keyspace
  as it was; streaming or not.
\<close>

theorem chat_unknown_conversation:
  "r (conversation_key cid) = None \<Longrightarrow>
   chat dial_client now_iso now_ts user_message cid stream r
     = (Inl (ValueError (''No conversation found with id: '' @ cid)), r)"
  by (simp add: chat_def get_conversation_def redis_get_def)

theorem chat_unknown_conversation_witness:
  "example_keyspace (conversation_key ''c2'') = None
   \<and> chat answering_client ''2025-01-02T00:00:00+00:00'' 1735776000000000
        example_user_message ''c2'' False example_keyspace
     = (Inl (ValueError ''No conversation found with id: c2''), example_keyspace)"
proof -
  have absent: "example_keyspace (conversation_key ''c2'') = None"
    by (simp add: example_keyspace_def)
  show ?thesis
    using absent
      chat_unknown_conversation
        [of example_keyspace "''c2''" answering_client "''2025-01-02T00:00:00+00:00''"
            1735776000000000 example_user_message False]
    by simp
qed

text \<open>
  The error of such a turn is not a \<^verbatim>\<open>ConversationNotFoundError\<close>: in a keyspace
  where \<^verbatim>\<open>c2\<close> has no record, a turn on \<^verbatim>\<open>c2\<close> raises the \<^verbatim>\<open>ValueError\<close>, the one
  \<open>chat\<close> also raises for a record whose document is empty.
\<close>

theorem chat_unknown_conversation_counterexample:
  "example_keyspace (conversation_key ''c2'') = None
   \<and> fst (chat answering_client ''2025-01-02T00:00:00+00:00'' 1735776000000000
             example_user_message ''c2'' False example_keyspace)
       \<noteq> Inl ConversationNotFoundError
   \<and> fst (chat answering_client ''2025-01-02T00:00:00+00:00'' 1735776000000000
             example_user_message ''c2'' False example_keyspace)
       = Inl (ValueError ''No conversation found with id: c2'')
   \<and> fst (chat answering_client ''2025-01-02T00:00:00+00:00'' 1735776000000000
             example_user_message ''c2'' False
             (example_keyspace(conversation_key ''c2'' \<mapsto> RString (JDict []))))
       = Inl (ValueError ''No conversation found with id: c2'')"
  by (simp add: chat_def get_conversation_def redis_get_def example_keyspace_def)

text \<open>
  C4: when the model call of a non-streaming turn raises, the turn raises the same
  exception and the keyspace is the one the turn started with: the record, its
  \<^verbatim>\<open>updated_at\<close> and its score in the index are unchanged. This holds for
  \<open>_non_stream_chat\<close> on any messages, and for \<open>chat\<close> on the messages it builds.
\<close>

theorem failed_model_call_persists_nothing:
  "(response dial_client messages = Inl e \<longrightarrow>
      non_stream_chat dial_client now_iso now_ts cid messages r = (Inl e, r))
   \<and> (get_conversation cid r = Inr (Some conversation) \<and> truthy conversation
        \<and> reconstruct_messages conversation = Inr history
        \<and> response dial_client
             ((if history = [] then [system_message] else history) @ [user_message]) = Inl e
      \<longrightarrow> chat dial_client now_iso now_ts user_message cid False r = (Inl e, r))"
  by (auto simp: non_stream_chat_def chat_def Let_def)

theorem failed_model_call_persists_nothing_witness:
  "response failing_client [system_message, example_user_message] = Inl (ModelError ''unavailable'')
   \<and> chat failing_client ''2025-01-02T00:00:00+00:00'' 1735776000000000
        example_user_message ''c1'' False example_keyspace
      = (Inl (ModelError ''unavailable''), example_keyspace)"
proof -
  have fails: "response failing_client [system_message, example_user_message]
      = Inl (ModelError ''unavailable'')"
    by (simp add: failing_client_def)
  have rec_ok: "truthy example_conversation"
    by (simp add: example_conversation_def)
  show ?thesis
    using fails rec_ok example_get example_reconstruct
      failed_model_call_persists_nothing
        [of failing_client "[system_message, example_user_message]" "ModelError ''unavailable''"
            "''2025-01-02T00:00:00+00:00''" 1735776000000000 "''c1''" example_keyspace
            example_conversation "[]" example_user_message]
    by simp
qed

text \<open>
  C10: the save at the end of a turn needs the record to be there. When the key of the
  identifier holds nothing, \<open>_save_conversation_messages\<close> raises \<^verbatim>\<open>TypeError\<close> (from
  \<^verbatim>\<open>json.loads(None)\<close>) and writes nothing: the record is not created again and the
  failure is not swallowed, neither in \<open>_non_stream_chat\<close> nor at the end of the stream.
  In particular a save that follows a delete of the same conversation raises.
\<close>

theorem save_requires_record:
  "(r (conversation_key cid) = None \<longrightarrow>
      save_conversation_messages now_iso now_ts cid messages r = (Inl TypeError, r)
      \<and> (response dial_client messages0 = Inr (ai_message, messages) \<longrightarrow>
           non_stream_chat dial_client now_iso now_ts cid messages0 r = (Inl TypeError, r))
      \<and> (gen_conversation_id g = cid \<longrightarrow>
           stream_finish now_iso now_ts g (Inr messages) r
             = ((Raised TypeError, g\<lparr>gen_phase := Closed\<rparr>), r)))
   \<and> save_conversation_messages now_iso now_ts cid messages (snd (delete_conversation cid r))
       = (Inl TypeError, snd (delete_conversation cid r))"
  by (auto simp: save_conversation_messages_def redis_get_def non_stream_chat_def
      stream_finish_def delete_conversation_def redis_delete_def split: option.splits)

theorem save_requires_record_witness:
  "snd (delete_conversation ''c1'' example_keyspace) (conversation_key ''c1'') = None
   \<and> save_conversation_messages ''2025-01-02T00:00:00+00:00'' 1735776000000000 ''c1''
         [system_message, example_user_message, example_answer]
         (snd (delete_conversation ''c1'' example_keyspace))
       = (Inl TypeError, snd (delete_conversation ''c1'' example_keyspace))
   \<and> non_stream_chat answering_client ''2025-01-02T00:00:00+00:00'' 1735776000000000 ''c1''
         [system_message, example_user_message] (snd (delete_conversation ''c1'' example_keyspace))
       = (Inl TypeError, snd (delete_conversation ''c1'' example_keyspace))"
proof -
  have gone: "snd (delete_conversation ''c1'' example_keyspace) (conversation_key ''c1'') = None"
    by (simp add: delete_conversation_def redis_delete_def example_keyspace_def)
  have answers: "response answering_client [system_message, example_user_message]
      = Inr (example_answer, [system_message, example_user_message, example_answer])"
    by (simp add: answering_client_def)
  show ?thesis
    using gone answers
      save_requires_record
        [of "snd (delete_conversation ''c1'' example_keyspace)" "''c1''"
            "''2025-01-02T00:00:00+00:00''" 1735776000000000
            "[system_message, example_user_message, example_answer]"
            answering_client "[system_message, example_user_message]" example_answer]
    by simp
qed

section \<open>Streaming\<close>

lemma anext_yield_keeps:
  "anext dial_client now_iso now_ts g r = ((Yielded c, g'), r') \<Longrightarrow> r' = r"
  by (auto simp: anext_def stream_loop_def stream_finish_def
      split: phase.splits list.splits prod.splits sum.splits)

lemma resume_in_loop:
  "gen_phase g = InLoop cs outcome \<Longrightarrow> n \<le> length cs \<Longrightarrow>
   resume dial_client now_iso now_ts n g r
     = ((map (\<lambda>c. Yielded (ModelChunk c)) (take n cs),
         g\<lparr>gen_phase := InLoop (drop n cs) outcome\<rparr>), r)"
proof (induction n arbitrary: g cs)
  case 0
  then show ?case by simp
next
  case (Suc n)
  then obtain c rest where cs: "cs = c # rest"
    by (cases cs) auto
  have step: "anext dial_client now_iso now_ts g r
      = ((Yielded (ModelChunk c), g\<lparr>gen_phase := InLoop rest outcome\<rparr>), r)"
    using Suc.prems(1) by (simp add: anext_def stream_loop_def cs)
  have "resume dial_client now_iso now_ts n (g\<lparr>gen_phase := InLoop rest outcome\<rparr>) r
      = ((map (\<lambda>c. Yielded (ModelChunk c)) (take n rest),
          g\<lparr>gen_phase := InLoop rest outcome\<rparr>\<lparr>gen_phase := InLoop (drop n rest) outcome\<rparr>), r)"
    using Suc.prems(2) by (intro Suc.IH) (simp_all add: cs)
  then show ?case
    by (simp add: step cs)
qed

lemma stream_finish_cases:
  "stream_finish now_iso now_ts g outcome r
     = ((case outcome of
           Inl e \<Rightarrow> Raised e
         | Inr messages' \<Rightarrow>
             (case fst (save_conversation_messages now_iso now_ts (gen_conversation_id g)
                          messages' r) of
                Inl e \<Rightarrow> Raised e
              | Inr u \<Rightarrow> StopAsyncIteration),
         g\<lparr>gen_phase := Closed\<rparr>),
        (case outcome of
           Inl e \<Rightarrow> r
         | Inr messages' \<Rightarrow>
             snd (save_conversation_messages now_iso now_ts (gen_conversation_id g)
                    messages' r)))"
  by (simp add: stream_finish_def split: sum.splits prod.splits)

lemma stream_finish_phase [simp]:
  "stream_finish now_iso now_ts (g\<lparr>gen_phase := p\<rparr>) outcome r
     = stream_finish now_iso now_ts g outcome r"
  by (simp add: stream_finish_def split: sum.splits prod.splits)

declare drain.simps [simp del]

lemma stream_finish_not_yielded:
  "fst (fst (stream_finish now_iso now_ts g outcome r)) \<noteq> Yielded c"
  by (simp add: stream_finish_cases split: sum.splits)

lemma drain_in_loop:
  "gen_phase g = InLoop cs outcome \<Longrightarrow>
   drain dial_client now_iso now_ts g r
     = ((map ModelChunk cs, raised (fst (fst (stream_finish now_iso now_ts g outcome r)))),
        snd (stream_finish now_iso now_ts g outcome r))"
proof (induction cs arbitrary: g)
  case Nil
  then show ?case
    by (subst drain.simps)
       (simp add: anext_def stream_loop_def stream_finish_cases raised_def
         split: sum.splits)
next
  case (Cons c rest)
  have step: "anext dial_client now_iso now_ts g r
      = ((Yielded (ModelChunk c), g\<lparr>gen_phase := InLoop rest outcome\<rparr>), r)"
    using Cons.prems by (simp add: anext_def stream_loop_def)
  have "drain dial_client now_iso now_ts (g\<lparr>gen_phase := InLoop rest outcome\<rparr>) r
      = ((map ModelChunk rest, raised (fst (fst (stream_finish now_iso now_ts g outcome r)))),
         snd (stream_finish now_iso now_ts g outcome r))"
    using Cons.IH [of "g\<lparr>gen_phase := InLoop rest outcome\<rparr>"]
    by simp
  then show ?case
    by (subst drain.simps) (simp add: step)
qed

lemma drain_at_first_yield:
  assumes "gen_phase g = AtFirstYield"
    and "stream_response dial_client (gen_messages g) = (chunks, outcome)"
  shows "drain dial_client now_iso now_ts g r
     = ((map ModelChunk chunks, raised (fst (fst (stream_finish now_iso now_ts g outcome r)))),
        snd (stream_finish now_iso now_ts g outcome r))"
proof (cases chunks)
  case Nil
  with assms show ?thesis
    by (subst drain.simps)
       (simp add: anext_def stream_loop_def stream_finish_cases raised_def split: sum.splits)
next
  case (Cons c rest)
  have step: "anext dial_client now_iso now_ts g r
      = ((Yielded (ModelChunk c), g\<lparr>gen_phase := InLoop rest outcome\<rparr>), r)"
    using assms Cons by (simp add: anext_def stream_loop_def)
  have "drain dial_client now_iso now_ts (g\<lparr>gen_phase := InLoop rest outcome\<rparr>) r
      = ((map ModelChunk rest, raised (fst (fst (stream_finish now_iso now_ts g outcome r)))),
         snd (stream_finish now_iso now_ts g outcome r))"
    using drain_in_loop [of "g\<lparr>gen_phase := InLoop rest outcome\<rparr>" rest outcome]
    by simp
  then show ?thesis
    by (subst drain.simps) (simp add: step Cons)
qed

lemma drain_created:
  assumes "gen_phase g = Created"
    and "stream_response dial_client (gen_messages g) = (chunks, outcome)"
  shows "drain dial_client now_iso now_ts g r
     = ((DataFrame (JDict [(''conversation_id'', JStr (gen_conversation_id g))])
           # map ModelChunk chunks,
         raised (fst (fst (stream_finish now_iso now_ts g outcome r)))),
        snd (stream_finish now_iso now_ts g outcome r))"
proof -
  have step: "anext dial_client now_iso now_ts g r
      = ((Yielded (DataFrame (JDict [(''conversation_id'', JStr (gen_conversation_id g))])),
          g\<lparr>gen_phase := AtFirstYield\<rparr>), r)"
    using assms(1) by (simp add: anext_def)
  have "drain dial_client now_iso now_ts (g\<lparr>gen_phase := AtFirstYield\<rparr>) r
      = ((map ModelChunk chunks, raised (fst (fst (stream_finish now_iso now_ts g outcome r)))),
         snd (stream_finish now_iso now_ts g outcome r))"
    using drain_at_first_yield [of "g\<lparr>gen_phase := AtFirstYield\<rparr>" dial_client chunks outcome]
      assms(2)
    by simp
  then show ?thesis
    by (subst drain.simps) (simp add: step)
qed

lemma resume_at_first_yield:
  assumes "gen_phase g = AtFirstYield"
    and "stream_response dial_client (gen_messages g) = (chunks, outcome)"
    and "n \<le> length chunks"
  shows "fst (fst (resume dial_client now_iso now_ts n g r))
           = map (\<lambda>c. Yielded (ModelChunk c)) (take n chunks)
         \<and> snd (resume dial_client now_iso now_ts n g r) = r"
proof (cases n)
  case 0
  then show ?thesis by simp
next
  case (Suc m)
  with assms(3) obtain c rest where chunks: "chunks = c # rest"
    by (cases chunks) auto
  have step: "anext dial_client now_iso now_ts g r
      = ((Yielded (ModelChunk c), g\<lparr>gen_phase := InLoop rest outcome\<rparr>), r)"
    using assms(1,2) by (simp add: anext_def stream_loop_def chunks)
  have "m \<le> length rest"
    using assms(3) Suc chunks by simp
  then show ?thesis
    using resume_in_loop [of "g\<lparr>gen_phase := InLoop rest outcome\<rparr>" rest outcome m]
    by (simp add: Suc step chunks)
qed

lemma resume_created:
  assumes "gen_phase g = Created"
    and "stream_response dial_client (gen_messages g) = (chunks, outcome)"
    and "n \<le> length chunks + 1"
  shows "fst (fst (resume dial_client now_iso now_ts n g r))
           = map Yielded
               (take n (DataFrame (JDict [(''conversation_id'', JStr (gen_conversation_id g))])
                        # map ModelChunk chunks))
         \<and> snd (resume dial_client now_iso now_ts n g r) = r"
proof (cases n)
  case 0
  then show ?thesis by simp
next
  case (Suc m)
  have step: "anext dial_client now_iso now_ts g r
      = ((Yielded (DataFrame (JDict [(''conversation_id'', JStr (gen_conversation_id g))])),
          g\<lparr>gen_phase := AtFirstYield\<rparr>), r)"
    using assms(1) by (simp add: anext_def)
  have "m \<le> length chunks"
    using assms(3) Suc by simp
  then show ?thesis
    using resume_at_first_yield [of "g\<lparr>gen_phase := AtFirstYield\<rparr>" dial_client chunks outcome m
        now_iso now_ts r]
      assms(2)
    by (auto simp: Suc step take_map comp_def split: prod.splits)
qed

lemma chat_stream_result:
  assumes "chat dial_client now_iso now_ts user_message cid True r = (Inr (Stream g), r0)"
  shows "r0 = r \<and> gen_phase g = Created \<and> gen_conversation_id g = cid"
  using assms
  by (auto simp: chat_def stream_chat_def Let_def split: sum.splits if_splits option.splits)

text \<open>
  C5: a streaming turn. \<open>chat\<close> returns the generator without writing. The first
  \<^verbatim>\<open>__anext__\<close> yields the frame that carries the conversation identifier, before any
  chunk of the model. No step that yields changes the keyspace. As long as the caller has asked for no more than that frame and the
  model's chunks, it has received exactly a prefix of them and the keyspace is the one
  the turn started with. A caller that drains the stream receives the frame and then
  every chunk, and the keyspace it is left with is the initial one with the final
  messages saved (or the initial one, when the model's stream raised): the save happens
  in the step after the last chunk.
\<close>

theorem stream_chat_order:
  assumes "chat dial_client now_iso now_ts user_message cid True r = (Inr (Stream g), r0)"
    and "stream_response dial_client (gen_messages g) = (chunks, outcome)"
  shows "r0 = r
    \<and> anext dial_client now_iso' now_ts' g r
        = ((Yielded (DataFrame (JDict [(''conversation_id'', JStr cid)])),
            g\<lparr>gen_phase := AtFirstYield\<rparr>), r)
    \<and> (\<forall>g1 r1 c g2 r2.
          anext dial_client now_iso' now_ts' g1 r1 = ((Yielded c, g2), r2) \<longrightarrow> r2 = r1)
    \<and> (\<forall>n\<le>length chunks + 1.
          fst (fst (resume dial_client now_iso' now_ts' n g r))
            = map Yielded (take n (DataFrame (JDict [(''conversation_id'', JStr cid)])
                                   # map ModelChunk chunks))
          \<and> snd (resume dial_client now_iso' now_ts' n g r) = r)
    \<and> fst (fst (drain dial_client now_iso' now_ts' g r))
        = DataFrame (JDict [(''conversation_id'', JStr cid)]) # map ModelChunk chunks
    \<and> snd (drain dial_client now_iso' now_ts' g r)
        = (case outcome of
             Inl e \<Rightarrow> r
           | Inr messages' \<Rightarrow>
               snd (save_conversation_messages now_iso' now_ts' cid messages' r))"
proof -
  from chat_stream_result [OF assms(1)]
  have r0: "r0 = r" and created: "gen_phase g = Created" and cid: "gen_conversation_id g = cid"
    by simp_all
  have first: "anext dial_client now_iso' now_ts' g r
        = ((Yielded (DataFrame (JDict [(''conversation_id'', JStr cid)])),
            g\<lparr>gen_phase := AtFirstYield\<rparr>), r)"
    using created cid by (simp add: anext_def)
  have prefix: "\<forall>n\<le>length chunks + 1.
          fst (fst (resume dial_client now_iso' now_ts' n g r))
            = map Yielded (take n (DataFrame (JDict [(''conversation_id'', JStr cid)])
                                   # map ModelChunk chunks))
          \<and> snd (resume dial_client now_iso' now_ts' n g r) = r"
    using resume_created [OF created assms(2)] cid by simp
  have all: "drain dial_client now_iso' now_ts' g r
     = ((DataFrame (JDict [(''conversation_id'', JStr cid)]) # map ModelChunk chunks,
         raised (fst (fst (stream_finish now_iso' now_ts' g outcome r)))),
        snd (stream_finish now_iso' now_ts' g outcome r))"
    using drain_created [OF created assms(2)] cid by simp
  have quiet: "\<forall>g1 r1 c g2 r2.
          anext dial_client now_iso' now_ts' g1 r1 = ((Yielded c, g2), r2) \<longrightarrow> r2 = r1"
    using anext_yield_keeps by blast
  have final: "fst (fst (drain dial_client now_iso' now_ts' g r))
        = DataFrame (JDict [(''conversation_id'', JStr cid)]) # map ModelChunk chunks
    \<and> snd (drain dial_client now_iso' now_ts' g r)
        = (case outcome of
             Inl e \<Rightarrow> r
           | Inr messages' \<Rightarrow>
               snd (save_conversation_messages now_iso' now_ts' cid messages' r))"
    by (simp add: all stream_finish_cases cid split: sum.splits)
  show ?thesis
    using r0 first quiet prefix final by blast
qed

theorem stream_chat_order_witness:
  "chat answering_client ''2025-01-02T00:00:00+00:00'' 1735776000000000 example_user_message
       ''c1'' True example_keyspace
     = (Inr (Stream example_stream), example_keyspace)
   \<and> stream_response answering_client (gen_messages example_stream)
       = ([''There is '', ''one user.''],
          Inr [system_message, example_user_message, example_answer])
   \<and> fst (fst (resume answering_client ''2025-01-02T00:00:05+00:00'' 1735776005000000 3
                  example_stream example_keyspace))
       = [Yielded (DataFrame (JDict [(''conversation_id'', JStr ''c1'')])),
          Yielded (ModelChunk ''There is ''), Yielded (ModelChunk ''one user.'')]
   \<and> snd (resume answering_client ''2025-01-02T00:00:05+00:00'' 1735776005000000 3
             example_stream example_keyspace)
       = example_keyspace
   \<and> fst (fst (drain answering_client ''2025-01-02T00:00:05+00:00'' 1735776005000000
                  example_stream example_keyspace))
       = [DataFrame (JDict [(''conversation_id'', JStr ''c1'')]),
          ModelChunk ''There is '', ModelChunk ''one user.'']
   \<and> snd (drain answering_client ''2025-01-02T00:00:05+00:00'' 1735776005000000
             example_stream example_keyspace)
       = snd (save_conversation_messages ''2025-01-02T00:00:05+00:00'' 1735776005000000 ''c1''
                [system_message, example_user_message, example_answer] example_keyspace)"
proof -
  have turn: "chat answering_client ''2025-01-02T00:00:00+00:00'' 1735776000000000
       example_user_message ''c1'' True example_keyspace
     = (Inr (Stream example_stream), example_keyspace)"
    by (simp add: chat_def stream_chat_def example_get example_reconstruct example_truthy example_stream_def
        Let_def)
  have chunks: "stream_response answering_client (gen_messages example_stream)
       = ([''There is '', ''one user.''],
          Inr [system_message, example_user_message, example_answer])"
    by (simp add: answering_client_def example_stream_def)
  show ?thesis
    using turn chunks
      stream_chat_order [OF turn chunks, of "''2025-01-02T00:00:05+00:00''" 1735776005000000]
    by simp
qed

section \<open>Saving and reloading\<close>

lemma traverse_map_inverse:
  assumes "\<And>x. f (g x) = Inr x"
  shows "traverse f (map g xs) = Inr xs"
  by (induction xs) (simp_all add: assms)

lemma parse_role_value: "parse_role (JStr (role_value ro)) = Inr ro"
  by (cases ro) simp_all

lemma parse_optional_dump: "parse_optional (Some (dump_optional x)) = Inr x"
  by (cases x) (simp_all add: dump_optional_def)

lemma parse_tool_call_dump: "parse_tool_call (dump_tool_call tc) = Inr tc"
  by (simp add: dump_tool_call_def)

lemma Message_init_model_dump: "Message_init (model_dump m) = Inr m"
proof (cases "tool_calls m")
  case None
  then show ?thesis
    by (simp add: model_dump_def parse_role_value parse_optional_dump del: parse_role.simps)
next
  case (Some tcs)
  have "traverse parse_tool_call (map dump_tool_call tcs) = Inr tcs"
    by (rule traverse_map_inverse) (rule parse_tool_call_dump)
  with Some show ?thesis
    by (simp add: model_dump_def parse_role_value parse_optional_dump del: parse_role.simps)
qed

lemma map_of_dict_set: "map_of (dict_set d k v) k' = (if k' = k then Some v else map_of d k')"
  by (induction d) auto

lemma reconstruct_dumped:
  "map_of d ''messages'' = Some (JList (map model_dump messages))
     \<Longrightarrow> reconstruct_messages (JDict d) = Inr messages"
  by (simp add: reconstruct_messages_def get_messages_def traverse_map_inverse
      Message_init_model_dump)

lemma save_conversation_messages_ok:
  assumes "r (conversation_key cid) = Some (RString conversation)"
    and "getitem conversation ''id'' = Inr (JStr cid)"
    and "index_ok r"
  shows "save_conversation_messages now_iso now_ts cid messages r
     = (Inr (),
        r(conversation_key cid \<mapsto> RString (saved_record now_iso messages conversation),
          CONVERSATION_LIST_KEY \<mapsto>
            RZSet (zset_add cid now_ts
                     (case r CONVERSATION_LIST_KEY of Some (RZSet zs) \<Rightarrow> zs | _ \<Rightarrow> []))))"
proof -
  from assms(2) obtain d where d: "conversation = JDict d" and idd: "map_of d ''id'' = Some (JStr cid)"
    by (cases conversation) (auto split: option.splits)
  show ?thesis
    using assms(1,3) idd
    by (auto simp: save_conversation_messages_def redis_get_def d saved_record_def
        save_conversation_def map_of_dict_set redis_set_def redis_zadd_def index_ok_def Let_def
        split: option.splits rvalue.splits)
qed

lemma reconstruct_saved_record:
  "getitem conversation ''id'' = Inr (JStr cid) \<Longrightarrow>
   reconstruct_messages (saved_record now_iso messages conversation) = Inr messages"
  by (cases conversation)
     (auto simp: saved_record_def map_of_dict_set intro!: reconstruct_dumped split: option.splits)

lemma reload_after_save:
  assumes "r (conversation_key cid) = Some (RString conversation)"
    and "getitem conversation ''id'' = Inr (JStr cid)"
    and "index_ok r"
  shows "fst (save_conversation_messages now_iso now_ts cid messages r) = Inr ()"
    and "get_conversation cid (snd (save_conversation_messages now_iso now_ts cid messages r))
           = Inr (Some (saved_record now_iso messages conversation))"
    and "reconstruct_messages (saved_record now_iso messages conversation) = Inr messages"
proof -
  show "fst (save_conversation_messages now_iso now_ts cid messages r) = Inr ()"
    by (simp add: save_conversation_messages_ok [OF assms])
  show "get_conversation cid (snd (save_conversation_messages now_iso now_ts cid messages r))
           = Inr (Some (saved_record now_iso messages conversation))"
    by (simp add: save_conversation_messages_ok [OF assms] get_conversation_def redis_get_def)
  show "reconstruct_messages (saved_record now_iso messages conversation) = Inr messages"
    by (rule reconstruct_saved_record [OF assms(2)])
qed

text \<open>
  C3: for a conversation whose record is stored under its own identifier, and every
  sequence of messages (with or without tool calls and \<^verbatim>\<open>tool_call_id\<close>), the save
  path succeeds, and loading the conversation afterwards and rebuilding the typed
  messages as \<open>chat\<close> does gives back the very sequence that was saved.
\<close>

theorem save_then_reload:
  assumes "r (conversation_key cid) = Some (RString conversation)"
    and "getitem conversation ''id'' = Inr (JStr cid)"
    and "index_ok r"
  shows "\<exists>r' conversation'.
           save_conversation_messages now_iso now_ts cid messages r = (Inr (), r')
           \<and> get_conversation cid r' = Inr (Some conversation')
           \<and> reconstruct_messages conversation' = Inr messages"
proof -
  let ?r' = "snd (save_conversation_messages now_iso now_ts cid messages r)"
  have "save_conversation_messages now_iso now_ts cid messages r = (Inr (), ?r')"
    using reload_after_save(1) [OF assms, of now_iso now_ts messages]
    by (simp add: prod_eq_iff)
  then show ?thesis
    using reload_after_save(2,3) [OF assms] by blast
qed

theorem save_then_reload_witness:
  "example_keyspace (conversation_key ''c1'') = Some (RString example_conversation)
   \<and> getitem example_conversation ''id'' = Inr (JStr ''c1'')
   \<and> index_ok example_keyspace
   \<and> (\<exists>r' conversation'.
         save_conversation_messages ''2025-01-02T00:00:00+00:00'' 1735776000000000 ''c1''
             example_history example_keyspace = (Inr (), r')
         \<and> get_conversation ''c1'' r' = Inr (Some conversation')
         \<and> reconstruct_messages conversation' = Inr example_history)"
proof -
  have stored: "example_keyspace (conversation_key ''c1'') = Some (RString example_conversation)"
    by (simp add: example_keyspace_def)
  have ident: "getitem example_conversation ''id'' = Inr (JStr ''c1'')"
    by (simp add: example_conversation_def)
  have index: "index_ok example_keyspace"
    by (simp add: index_ok_def example_keyspace_def)
  show ?thesis
    using stored ident index
      save_then_reload
        [OF stored ident index, of "''2025-01-02T00:00:00+00:00''" 1735776000000000
            example_history]
    by simp
qed

section \<open>The first turn\<close>

lemma getitem_id_truthy: "getitem conversation ''id'' = Inr v \<Longrightarrow> truthy conversation"
  by (cases conversation) (auto split: option.splits)

text \<open>
  C1: a turn on a conversation whose record is stored under its own identifier and whose
  stored messages rebuild to \<open>history\<close>. When \<open>history\<close> is empty, the messages of the
  turn are two: first the message of role system whose content is \<open>SYSTEM_PROMPT\<close> (with
  no tool calls and no \<^verbatim>\<open>tool_call_id\<close>), second the user's message. Otherwise they are
  \<open>history\<close> followed by the user's message: nothing is put in front. These are the messages of the
  generator that a streaming turn returns and the messages a non-streaming turn calls
  the model with. When the model client returns having only appended to them, the turn
  succeeds and the conversation reloads to exactly these messages followed by the
  appended ones; so does a drained stream.
\<close>

theorem chat_seeds_system_prompt:
  assumes "r (conversation_key cid) = Some (RString conversation)"
    and "getitem conversation ''id'' = Inr (JStr cid)"
    and "index_ok r"
    and "reconstruct_messages conversation = Inr history"
  shows "let messages = (if history = []
                         then [\<lparr>role = SYSTEM, content = Some SYSTEM_PROMPT,
                                tool_calls = None, tool_call_id = None\<rparr>,
                               user_message]
                         else history @ [user_message]);
             g = stream_chat cid messages
         in chat dial_client now_iso now_ts user_message cid True r = (Inr (Stream g), r)
          \<and> chat dial_client now_iso now_ts user_message cid False r
              = (case non_stream_chat dial_client now_iso now_ts cid messages r of
                   (Inl e, r') \<Rightarrow> (Inl e, r')
                 | (Inr reply, r') \<Rightarrow> (Inr (Reply reply), r'))
          \<and> (\<forall>ai_message appended.
                response dial_client messages = Inr (ai_message, messages @ appended) \<longrightarrow>
                (\<exists>reply r' conversation'.
                   chat dial_client now_iso now_ts user_message cid False r = (Inr (Reply reply), r')
                   \<and> get_conversation cid r' = Inr (Some conversation')
                   \<and> reconstruct_messages conversation' = Inr (messages @ appended)))
          \<and> (\<forall>chunks appended.
                stream_response dial_client messages = (chunks, Inr (messages @ appended)) \<longrightarrow>
                (\<exists>conversation'.
                   get_conversation cid (snd (drain dial_client now_iso now_ts g r))
                     = Inr (Some conversation')
                   \<and> reconstruct_messages conversation' = Inr (messages @ appended)))"
proof -
  define messages where
    "messages = (if history = []
                 then [\<lparr>role = SYSTEM, content = Some SYSTEM_PROMPT,
                        tool_calls = None, tool_call_id = None\<rparr>,
                       user_message]
                 else history @ [user_message])"
  define g where
    "g = stream_chat cid messages"
  have loaded: "get_conversation cid r = Inr (Some conversation)"
    using assms(1) by (simp add: get_conversation_def redis_get_def)
  have true: "truthy conversation"
    using assms(2) by (rule getitem_id_truthy)
  have stream: "chat dial_client now_iso now_ts user_message cid True r = (Inr (Stream g), r)"
    using loaded true assms(4)
    by (simp add: chat_def Let_def messages_def g_def system_message_def)
  have plain: "chat dial_client now_iso now_ts user_message cid False r
              = (case non_stream_chat dial_client now_iso now_ts cid messages r of
                   (Inl e, r') \<Rightarrow> (Inl e, r')
                 | (Inr reply, r') \<Rightarrow> (Inr (Reply reply), r'))"
    using loaded true assms(4)
    by (simp add: chat_def Let_def messages_def system_message_def)
  have reload: "\<exists>conversation'.
        get_conversation cid (snd (save_conversation_messages now_iso now_ts cid ms r))
          = Inr (Some conversation')
        \<and> reconstruct_messages conversation' = Inr ms
        \<and> fst (save_conversation_messages now_iso now_ts cid ms r) = Inr ()" for ms
    by (simp add: reload_after_save [OF assms(1-3)])
  have persisted: "\<exists>reply r' conversation'.
                   chat dial_client now_iso now_ts user_message cid False r = (Inr (Reply reply), r')
                   \<and> get_conversation cid r' = Inr (Some conversation')
                   \<and> reconstruct_messages conversation' = Inr (messages @ appended)"
    if "response dial_client messages = Inr (ai_message, messages @ appended)"
    for ai_message appended
    using reload [of "messages @ appended"] that
    by (auto simp: plain non_stream_chat_def split: prod.splits sum.splits)
  have drained: "\<exists>conversation'.
                   get_conversation cid (snd (drain dial_client now_iso now_ts g r))
                     = Inr (Some conversation')
                   \<and> reconstruct_messages conversation' = Inr (messages @ appended)"
    if "stream_response dial_client messages = (chunks, Inr (messages @ appended))"
    for chunks appended
  proof -
    have "snd (drain dial_client now_iso now_ts g r)
        = snd (save_conversation_messages now_iso now_ts cid (messages @ appended) r)"
      using drain_created [of g dial_client chunks "Inr (messages @ appended)" now_iso now_ts r] that
      by (simp add: g_def stream_chat_def stream_finish_def split: prod.splits sum.splits)
    then show ?thesis
      using reload [of "messages @ appended"] by auto
  qed
  show ?thesis
    unfolding Let_def messages_def [symmetric] g_def [symmetric]
    using stream plain persisted drained by blast
qed

theorem chat_seeds_system_prompt_witness:
  "example_keyspace (conversation_key ''c1'') = Some (RString example_conversation)
   \<and> getitem example_conversation ''id'' = Inr (JStr ''c1'')
   \<and> index_ok example_keyspace
   \<and> reconstruct_messages example_conversation = Inr []
   \<and> length SYSTEM_PROMPT = 828
   \<and> take 33 SYSTEM_PROMPT = ''\<newline>You are a User Management Agent ''
   \<and> chat answering_client ''2025-01-02T00:00:00+00:00'' 1735776000000000 example_user_message
         ''c1'' True example_keyspace
       = (Inr (Stream
                (stream_chat ''c1''
                   [\<lparr>role = SYSTEM, content = Some SYSTEM_PROMPT, tool_calls = None,
                      tool_call_id = None\<rparr>,
                    example_user_message])),
          example_keyspace)
   \<and> (\<exists>reply r' conversation'.
         chat answering_client ''2025-01-02T00:00:00+00:00'' 1735776000000000
             example_user_message ''c1'' False example_keyspace
           = (Inr (Reply reply), r')
         \<and> get_conversation ''c1'' r' = Inr (Some conversation')
         \<and> reconstruct_messages conversation'
             = Inr [\<lparr>role = SYSTEM, content = Some SYSTEM_PROMPT, tool_calls = None,
                      tool_call_id = None\<rparr>,
                    example_user_message, example_answer])
   \<and> listing_keyspace (conversation_key ''c2'') = Some (RString second_conversation)
   \<and> getitem second_conversation ''id'' = Inr (JStr ''c2'')
   \<and> index_ok listing_keyspace
   \<and> reconstruct_messages second_conversation = Inr [system_message, example_user_message]
   \<and> chat answering_client ''2025-01-02T00:01:00+00:00'' 1735776060000000 example_follow_up
         ''c2'' True listing_keyspace
       = (Inr (Stream
                (stream_chat ''c2'' [system_message, example_user_message, example_follow_up])),
          listing_keyspace)
   \<and> (\<exists>reply r' conversation'.
         chat answering_client ''2025-01-02T00:01:00+00:00'' 1735776060000000
             example_follow_up ''c2'' False listing_keyspace
           = (Inr (Reply reply), r')
         \<and> get_conversation ''c2'' r' = Inr (Some conversation')
         \<and> reconstruct_messages conversation'
             = Inr [system_message, example_user_message, example_follow_up, example_answer])"
proof -
  have stored: "example_keyspace (conversation_key ''c1'') = Some (RString example_conversation)"
    by (simp add: example_keyspace_def)
  have ident: "getitem example_conversation ''id'' = Inr (JStr ''c1'')"
    by (simp add: example_conversation_def)
  have index: "index_ok example_keyspace"
    by (simp add: index_ok_def example_keyspace_def)
  have prompt: "length SYSTEM_PROMPT = 828"
    "take 33 SYSTEM_PROMPT = ''\<newline>You are a User Management Agent ''"
    by (simp_all add: SYSTEM_PROMPT_def)
  have answers: "response answering_client messages
       = Inr (example_answer, messages @ [example_answer])" for messages
    by (simp add: answering_client_def)
  note first = chat_seeds_system_prompt
                 [OF stored ident index example_reconstruct, of example_user_message
                     answering_client "''2025-01-02T00:00:00+00:00''" 1735776000000000]
  have streamed: "chat answering_client ''2025-01-02T00:00:00+00:00'' 1735776000000000
         example_user_message ''c1'' True example_keyspace
       = (Inr (Stream
                (stream_chat ''c1''
                   [\<lparr>role = SYSTEM, content = Some SYSTEM_PROMPT, tool_calls = None,
                      tool_call_id = None\<rparr>,
                    example_user_message])),
          example_keyspace)"
    using first by (simp add: Let_def)
  have persisted: "\<exists>reply r' conversation'.
         chat answering_client ''2025-01-02T00:00:00+00:00'' 1735776000000000
             example_user_message ''c1'' False example_keyspace
           = (Inr (Reply reply), r')
         \<and> get_conversation ''c1'' r' = Inr (Some conversation')
         \<and> reconstruct_messages conversation'
             = Inr [\<lparr>role = SYSTEM, content = Some SYSTEM_PROMPT, tool_calls = None,
                      tool_call_id = None\<rparr>,
                    example_user_message, example_answer]"
    using first [unfolded Let_def, THEN conjunct2, THEN conjunct2, THEN conjunct1] answers
    by simp
  have stored2: "listing_keyspace (conversation_key ''c2'') = Some (RString second_conversation)"
    by (simp add: listing_keyspace_def)
  have ident2: "getitem second_conversation ''id'' = Inr (JStr ''c2'')"
    by (simp add: second_conversation_def)
  have index2: "index_ok listing_keyspace"
    by (simp add: index_ok_def listing_keyspace_def)
  have history2: "reconstruct_messages second_conversation
      = Inr [system_message, example_user_message]"
    unfolding second_conversation_def by (rule reconstruct_dumped) simp
  note later = chat_seeds_system_prompt
                 [OF stored2 ident2 index2 history2, of example_follow_up
                     answering_client "''2025-01-02T00:01:00+00:00''" 1735776060000000]
  have streamed2: "chat answering_client ''2025-01-02T00:01:00+00:00'' 1735776060000000
         example_follow_up ''c2'' True listing_keyspace
       = (Inr (Stream
                (stream_chat ''c2'' [system_message, example_user_message, example_follow_up])),
          listing_keyspace)"
    using later by (simp add: Let_def)
  have persisted2: "\<exists>reply r' conversation'.
         chat answering_client ''2025-01-02T00:01:00+00:00'' 1735776060000000
             example_follow_up ''c2'' False listing_keyspace
           = (Inr (Reply reply), r')
         \<and> get_conversation ''c2'' r' = Inr (Some conversation')
         \<and> reconstruct_messages conversation'
             = Inr [system_message, example_user_message, example_follow_up, example_answer]"
    using later [unfolded Let_def, THEN conjunct2, THEN conjunct2, THEN conjunct1] answers
    by simp
  show ?thesis
    using stored ident index example_reconstruct prompt streamed persisted
      stored2 ident2 index2 history2 streamed2 persisted2
    by blast
qed

section \<open>Listing conversations\<close>

lemma set_zset_revrange: "set (zset_revrange zs) = fst ` set zs"
  by (simp add: zset_revrange_def)

lemma zset_revrange_sorted:
  assumes "distinct (map fst zs)"
  shows "sorted_wrt (\<lambda>a b. \<exists>sa sb. map_of zs a = Some sa \<and> map_of zs b = Some sb \<and> sb \<le> sa)
           (zset_revrange zs)"
proof -
  let ?key = "\<lambda>p :: string \<times> score. (snd p, fst p)"
  let ?ps = "rev (sort_key ?key zs)"
  have "sorted (map ?key (sort_key ?key zs))"
    by (rule sorted_sort_key)
  then have "sorted_wrt (\<lambda>p q. ?key p \<le> ?key q) (sort_key ?key zs)"
    by (simp add: sorted_map)
  then have desc: "sorted_wrt (\<lambda>p q. ?key q \<le> ?key p) ?ps"
    by (simp add: sorted_wrt_rev)
  have "sorted_wrt (\<lambda>p q. \<exists>sa sb. map_of zs (fst p) = Some sa \<and> map_of zs (fst q) = Some sb
                              \<and> sb \<le> sa) ?ps"
  proof (rule sorted_wrt_mono_rel [OF _ desc])
    fix p q
    assume p: "p \<in> set ?ps" and q: "q \<in> set ?ps" and le: "?key q \<le> ?key p"
    from p have "(fst p, snd p) \<in> set zs"
      by simp
    with assms have "map_of zs (fst p) = Some (snd p)"
      by (simp only: map_of_eq_Some_iff)
    moreover from q have "(fst q, snd q) \<in> set zs"
      by simp
    with assms have "map_of zs (fst q) = Some (snd q)"
      by (simp only: map_of_eq_Some_iff)
    moreover from le have "snd q \<le> snd p"
      by (auto simp: less_eq_prod_def)
    ultimately show "\<exists>sa sb. map_of zs (fst p) = Some sa \<and> map_of zs (fst q) = Some sb \<and> sb \<le> sa"
      by blast
  qed
  then show ?thesis
    by (simp add: zset_revrange_def sorted_wrt_map)
qed

lemma wf_conversation_summary:
  assumes "wf_conversation cid conversation"
  shows "\<exists>s. summary conversation = Inr s \<and> getitem s ''id'' = Inr (JStr cid)"
proof -
  from assms obtain d where d: "conversation = JDict d"
    by (cases conversation) (simp_all add: wf_conversation_def)
  from assms d obtain ms where ms: "map_of d ''messages'' = Some (JList ms)"
    by (auto simp: wf_conversation_def split: option.splits json.splits)
  from assms d ms show ?thesis
    by (auto simp: wf_conversation_def summary_def)
qed

lemma list_loop_ok:
  assumes "\<forall>cid\<in>set ids. record_ok r cid"
  shows "\<exists>sums. list_loop r ids acc = Inr (acc @ sums)
           \<and> list_all2 (describes r) (filter (has_record r) ids) sums"
  using assms
proof (induction ids arbitrary: acc)
  case Nil
  then show ?case by simp
next
  case (Cons cid ids)
  then have rest: "\<forall>cid\<in>set ids. record_ok r cid" and here: "record_ok r cid"
    by simp_all
  show ?case
  proof (cases "r (conversation_key cid)")
    case None
    then have "\<not> has_record r cid"
      by (simp add: has_record_def)
    with None Cons.IH [OF rest, of acc] show ?thesis
      by (simp add: redis_get_def)
  next
    case (Some v)
    with here obtain conversation where v: "v = RString conversation"
      and wf: "wf_conversation cid conversation"
      by (cases v) (auto simp: record_ok_def)
    from wf_conversation_summary [OF wf] obtain s where s: "summary conversation = Inr s"
      and sid: "getitem s ''id'' = Inr (JStr cid)"
      by blast
    from Cons.IH [OF rest, of "acc @ [s]"] obtain sums where
      "list_loop r ids (acc @ [s]) = Inr ((acc @ [s]) @ sums)"
      "list_all2 (describes r) (filter (has_record r) ids) sums"
      by blast
    moreover have "describes r cid s"
      using Some v s sid by (simp add: describes_def)
    moreover have "has_record r cid"
      using Some by (simp add: has_record_def)
    ultimately show ?thesis
      using Some v s
      by (intro exI [of _ "s # sums"]) (simp add: redis_get_def)
  qed
qed


lemma list_conversations_ok:
  assumes "keyspace_ok r"
  shows "\<exists>sums. list_conversations r = Inr sums
           \<and> list_all2 (describes r)
                (listed r) sums"
proof -
  from assms have idx: "index_ok r" and recs: "\<forall>cid\<in>set (map fst (index_entries r)). record_ok r cid"
    by (simp_all add: keyspace_ok_def list_all_iff)
  have ids: "redis_zrevrange r CONVERSATION_LIST_KEY = Inr (zset_revrange (index_entries r))"
    using idx
    by (auto simp: redis_zrevrange_def index_ok_def index_entries_def zset_revrange_def
        split: option.splits rvalue.splits)
  have "\<forall>cid\<in>set (zset_revrange (index_entries r)). record_ok r cid"
    using recs by (simp add: set_zset_revrange)
  from list_loop_ok [OF this, of "[]"] show ?thesis
    by (simp add: list_conversations_def ids listed_def)
qed

lemma listed_sorted:
  assumes "index_ok r"
  shows "sorted_wrt (not_older r) (listed r)"
proof -
  have "distinct (map fst (index_entries r))"
    using assms
    by (auto simp: index_ok_def index_entries_def split: option.splits rvalue.splits)
  from zset_revrange_sorted [OF this]
  have "sorted_wrt (not_older r) (zset_revrange (index_entries r))"
    by (rule sorted_wrt_mono_rel [rotated]) (auto simp: not_older_def index_score_def)
  then show ?thesis
    unfolding listed_def by (rule sorted_wrt_filter)
qed

lemma three_created:
  assumes "c1 \<noteq> c2" "c1 \<noteq> c3" "c2 \<noteq> c3" "ts1 < ts2" "ts2 < ts3"
  shows "list_conversations
           (snd (create_conversation c3 iso3 ts3 title3
             (snd (create_conversation c2 iso2 ts2 title2
               (snd (create_conversation c1 iso1 ts1 title1 Map.empty))))))
         = Inr [fresh_summary c3 iso3 title3, fresh_summary c2 iso2 title2,
                fresh_summary c1 iso1 title1]"
  using assms
  by (simp add: create_conversation_def Let_def redis_set_def redis_zadd_def zset_add_def
      list_conversations_def redis_zrevrange_def zset_revrange_def redis_get_def summary_def
      less_eq_prod_def fresh_summary_def)

lemma list_all2_witness:
  assumes "list_all2 P xs ys"
  shows "(\<forall>x\<in>set xs. \<exists>y\<in>set ys. P x y) \<and> (\<forall>y\<in>set ys. \<exists>x\<in>set xs. P x y)"
  using assms by (induction rule: list_all2_induct) auto

lemma listing_keyspace_ok: "keyspace_ok listing_keyspace"
  by (simp add: keyspace_ok_def index_ok_def index_entries_def listing_keyspace_def
      record_ok_def wf_conversation_def example_conversation_def second_conversation_def
      traverse_map_inverse Message_init_model_dump)

text \<open>
  C6: in a keyspace whose index is a sorted set and whose indexed records are well
  formed, \<open>list_conversations\<close> returns one summary for each indexed identifier that has
  a record, in an order in which the scores of the index never increase: the most
  recently saved conversation comes first. In particular, after three conversations have
  been created in an empty keyspace, each at a later time than the one before, the
  listing gives the third, the second, the first.
\<close>

theorem list_conversations_most_recent_first:
  "(keyspace_ok r \<longrightarrow>
      (\<exists>sums. list_conversations r = Inr sums
         \<and> list_all2 (describes r) (listed r) sums
         \<and> sorted_wrt (not_older r) (listed r)))
   \<and> (c1 \<noteq> c2 \<and> c1 \<noteq> c3 \<and> c2 \<noteq> c3 \<and> ts1 < ts2 \<and> ts2 < ts3 \<longrightarrow>
        list_conversations
          (snd (create_conversation c3 iso3 ts3 title3
            (snd (create_conversation c2 iso2 ts2 title2
              (snd (create_conversation c1 iso1 ts1 title1 Map.empty))))))
        = Inr [fresh_summary c3 iso3 title3, fresh_summary c2 iso2 title2,
               fresh_summary c1 iso1 title1])"
proof (intro conjI impI)
  assume ok: "keyspace_ok r"
  then have "index_ok r"
    by (simp add: keyspace_ok_def)
  with list_conversations_ok [OF ok] listed_sorted [of r]
  show "\<exists>sums. list_conversations r = Inr sums
         \<and> list_all2 (describes r) (listed r) sums
         \<and> sorted_wrt (not_older r) (listed r)"
    by blast
next
  assume "c1 \<noteq> c2 \<and> c1 \<noteq> c3 \<and> c2 \<noteq> c3 \<and> ts1 < ts2 \<and> ts2 < ts3"
  then show "list_conversations
          (snd (create_conversation c3 iso3 ts3 title3
            (snd (create_conversation c2 iso2 ts2 title2
              (snd (create_conversation c1 iso1 ts1 title1 Map.empty))))))
        = Inr [fresh_summary c3 iso3 title3, fresh_summary c2 iso2 title2,
               fresh_summary c1 iso1 title1]"
    by (intro three_created) simp_all
qed

theorem list_conversations_most_recent_first_witness:
  "keyspace_ok listing_keyspace
   \<and> listed listing_keyspace = [''c2'', ''c1'']
   \<and> (\<exists>sums. list_conversations listing_keyspace = Inr sums
         \<and> list_all2 (describes listing_keyspace) [''c2'', ''c1''] sums
         \<and> sorted_wrt (not_older listing_keyspace) [''c2'', ''c1''])
   \<and> list_conversations
        (snd (create_conversation ''c'' ''2025-01-03T00:00:00+00:00'' 1735862400000000 JNull
          (snd (create_conversation ''b'' ''2025-01-02T00:00:00+00:00'' 1735776000000000
                  (JStr ''Second'')
            (snd (create_conversation ''a'' ''2025-01-01T00:00:00+00:00'' 1735689600000000
                    (JStr ''First'') Map.empty))))))
      = Inr [fresh_summary ''c'' ''2025-01-03T00:00:00+00:00'' JNull,
             fresh_summary ''b'' ''2025-01-02T00:00:00+00:00'' (JStr ''Second''),
             fresh_summary ''a'' ''2025-01-01T00:00:00+00:00'' (JStr ''First'')]"
proof -
  have ids: "listed listing_keyspace = [''c2'', ''c1'']"
    by (simp add: listed_def index_entries_def listing_keyspace_def zset_revrange_def
        has_record_def less_eq_prod_def)
  note listing = list_conversations_most_recent_first
                   [of listing_keyspace "''a''" "''b''" "''c''" 1735689600000000
                       1735776000000000 1735862400000000
                       "''2025-01-03T00:00:00+00:00''" JNull
                       "''2025-01-02T00:00:00+00:00''" "JStr ''Second''"
                       "''2025-01-01T00:00:00+00:00''" "JStr ''First''"]
  show ?thesis
    using listing_keyspace_ok ids listing by simp
qed

text \<open>
  C7: in such a keyspace, an identifier that is in the index while its key holds no
  record does not make \<open>list_conversations\<close> raise and is named by none of the
  summaries returned; every other indexed identifier that has a record is described by
  one of them.
\<close>

theorem list_conversations_skips_missing:
  assumes "keyspace_ok r"
    and "cid \<in> fst ` set (index_entries r)"
    and "r (conversation_key cid) = None"
  shows "\<exists>sums. list_conversations r = Inr sums
           \<and> (\<forall>s\<in>set sums. getitem s ''id'' \<noteq> Inr (JStr cid))
           \<and> (\<forall>other\<in>fst ` set (index_entries r).
                 has_record r other \<longrightarrow> (\<exists>s\<in>set sums. describes r other s))"
proof -
  from list_conversations_ok [OF assms(1)] obtain sums where
    sums: "list_conversations r = Inr sums" and rel: "list_all2 (describes r) (listed r) sums"
    by blast
  note both = list_all2_witness [OF rel]
  have "getitem s ''id'' \<noteq> Inr (JStr cid)" if "s \<in> set sums" for s
  proof -
    from both that obtain c where c: "c \<in> set (listed r)" and d: "describes r c s"
      by blast
    from c have "has_record r c"
      by (simp add: listed_def)
    with assms(3) have "c \<noteq> cid"
      by (auto simp: has_record_def)
    with d show ?thesis
      by (auto simp: describes_def split: option.splits rvalue.splits)
  qed
  moreover have "\<exists>s\<in>set sums. describes r other s"
    if "other \<in> fst ` set (index_entries r)" and "has_record r other" for other
  proof -
    from that have "other \<in> set (listed r)"
      by (simp add: listed_def set_zset_revrange)
    with both show ?thesis
      by blast
  qed
  ultimately show ?thesis
    using sums by blast
qed

theorem list_conversations_skips_missing_witness:
  "keyspace_ok listing_keyspace
   \<and> ''c0'' \<in> fst ` set (index_entries listing_keyspace)
   \<and> listing_keyspace (conversation_key ''c0'') = None
   \<and> (\<exists>sums. list_conversations listing_keyspace = Inr sums
         \<and> (\<forall>s\<in>set sums. getitem s ''id'' \<noteq> Inr (JStr ''c0''))
         \<and> (\<exists>s\<in>set sums. describes listing_keyspace ''c1'' s)
         \<and> (\<exists>s\<in>set sums. describes listing_keyspace ''c2'' s))"
proof -
  have indexed: "''c0'' \<in> fst ` set (index_entries listing_keyspace)"
    by (simp add: index_entries_def listing_keyspace_def)
  have missing: "listing_keyspace (conversation_key ''c0'') = None"
    by (simp add: listing_keyspace_def)
  have others: "''c1'' \<in> fst ` set (index_entries listing_keyspace)"
    "''c2'' \<in> fst ` set (index_entries listing_keyspace)"
    "has_record listing_keyspace ''c1''" "has_record listing_keyspace ''c2''"
    by (simp_all add: index_entries_def listing_keyspace_def has_record_def)
  from list_conversations_skips_missing [OF listing_keyspace_ok indexed missing] others
  have "\<exists>sums. list_conversations listing_keyspace = Inr sums
         \<and> (\<forall>s\<in>set sums. getitem s ''id'' \<noteq> Inr (JStr ''c0''))
         \<and> (\<exists>s\<in>set sums. describes listing_keyspace ''c1'' s)
         \<and> (\<exists>s\<in>set sums. describes listing_keyspace ''c2'' s)"
    by blast
  with listing_keyspace_ok indexed missing show ?thesis
    by blast
qed

section \<open>The keyspaces the manager produces\<close>

text \<open>
  The statements above about records and listings assume a record stored under its own
  identifier, an index that is a sorted set, and well-formed indexed records. Every
  keyspace built from the empty one by the manager's methods is of this kind: the
  invariant \<open>keyspace_inv\<close> holds of the empty keyspace, is kept by every method, whether
  it returns or raises, and gives those assumptions.
\<close>

lemma keyspace_inv_empty: "keyspace_inv Map.empty"
  by (simp add: keyspace_inv_def index_ok_def)

lemma keyspace_inv_record:
  assumes "keyspace_inv r" and "r (conversation_key cid) = Some v"
  shows "\<exists>conversation. v = RString conversation \<and> wf_conversation cid conversation"
proof -
  from assms(1) have "\<forall>k v. r k = Some v \<longrightarrow>
           k = CONVERSATION_LIST_KEY
           \<or> (\<exists>cid conversation.
                 k = conversation_key cid \<and> v = RString conversation
                 \<and> wf_conversation cid conversation
                 \<and> cid \<in> fst ` set (index_entries r))"
    by (simp add: keyspace_inv_def)
  from this [rule_format, OF assms(2)] show ?thesis
    by auto
qed

lemma keyspace_inv_ok:
  assumes "keyspace_inv r"
  shows "keyspace_ok r"
proof -
  have "record_ok r cid" for cid
  proof (cases "r (conversation_key cid)")
    case None
    then show ?thesis by (simp add: record_ok_def)
  next
    case (Some v)
    with keyspace_inv_record [OF assms Some] show ?thesis
      by (auto simp: record_ok_def)
  qed
  with assms show ?thesis
    by (simp add: keyspace_ok_def keyspace_inv_def list_all_iff)
qed

lemma wf_conversation_id:
  "wf_conversation cid conversation \<Longrightarrow> getitem conversation ''id'' = Inr (JStr cid)"
  by (cases conversation) (simp_all add: wf_conversation_def)

lemma wf_conversation_reconstruct:
  assumes "wf_conversation cid conversation"
  shows "\<exists>history. reconstruct_messages conversation = Inr history"
proof -
  from assms obtain d where d: "conversation = JDict d"
    by (cases conversation) (simp_all add: wf_conversation_def)
  from assms d obtain ms where ms: "map_of d ''messages'' = Some (JList ms)"
    and ok: "\<not> isl (traverse Message_init ms)"
    by (auto simp: wf_conversation_def split: option.splits json.splits)
  from ok obtain history where "traverse Message_init ms = Inr history"
    by (cases "traverse Message_init ms") simp_all
  with d ms show ?thesis
    by (simp add: reconstruct_messages_def get_messages_def)
qed

lemma wf_conversation_saved:
  assumes "wf_conversation cid conversation"
  shows "wf_conversation cid (saved_record now_iso messages conversation)"
proof -
  from assms obtain d where d: "conversation = JDict d"
    by (cases conversation) (simp_all add: wf_conversation_def)
  with assms show ?thesis
    by (simp add: wf_conversation_def saved_record_def map_of_dict_set traverse_map_inverse
        Message_init_model_dump)
qed

lemma zset_add_members: "fst ` set (zset_add m s zs) = insert m (fst ` set zs)"
  by (auto simp: zset_add_def image_iff)

lemma zset_add_distinct: "distinct (map fst zs) \<Longrightarrow> distinct (map fst (zset_add m s zs))"
  by (auto simp: zset_add_def distinct_map_filter)

text \<open>Writing a well-formed record under its identifier and indexing it keeps the invariant.\<close>

lemma keyspace_inv_write:
  assumes "keyspace_inv r" and "wf_conversation cid conversation"
  shows "keyspace_inv
           (r(conversation_key cid \<mapsto> RString conversation,
              CONVERSATION_LIST_KEY \<mapsto> RZSet (zset_add cid now_ts (index_entries r))))"
    (is "keyspace_inv ?r'")
proof -
  have entries: "index_entries ?r' = zset_add cid now_ts (index_entries r)"
    by (simp add: index_entries_def)
  have "distinct (map fst (index_entries r))"
    using assms(1)
    by (auto simp: keyspace_inv_def index_ok_def index_entries_def
        split: option.splits rvalue.splits)
  then have idx: "index_ok ?r'"
    by (simp add: index_ok_def zset_add_distinct)
  have "k = CONVERSATION_LIST_KEY
        \<or> (\<exists>c conv. k = conversation_key c \<and> v = RString conv \<and> wf_conversation c conv
              \<and> c \<in> fst ` set (index_entries ?r'))"
    if "?r' k = Some v" for k v
  proof (cases "k = CONVERSATION_LIST_KEY \<or> k = conversation_key cid")
    case True
    with that assms(2) show ?thesis
      by (auto simp: entries zset_add_members)
  next
    case False
    with that have old: "r k = Some v"
      by simp
    from assms(1) have "\<forall>k v. r k = Some v \<longrightarrow>
           k = CONVERSATION_LIST_KEY
           \<or> (\<exists>cid conversation.
                 k = conversation_key cid \<and> v = RString conversation
                 \<and> wf_conversation cid conversation
                 \<and> cid \<in> fst ` set (index_entries r))"
      by (simp add: keyspace_inv_def)
    from this [rule_format, OF old] False show ?thesis
      by (auto simp: entries zset_add_members)
  qed
  with idx show ?thesis
    unfolding keyspace_inv_def by blast
qed

lemma redis_zadd_index:
  assumes "index_ok r"
  shows "redis_zadd r CONVERSATION_LIST_KEY m s
     = Inr (r(CONVERSATION_LIST_KEY \<mapsto> RZSet (zset_add m s (index_entries r))))"
  using assms
  by (auto simp: redis_zadd_def index_ok_def index_entries_def split: option.splits rvalue.splits)

lemma index_ok_set [simp]: "index_ok (redis_set r (conversation_key cid) v) = index_ok r"
  by (simp add: index_ok_def redis_set_def)

lemma index_entries_set [simp]:
  "index_entries (redis_set r (conversation_key cid) v) = index_entries r"
  by (simp add: index_entries_def redis_set_def)

lemma create_conversation_inv:
  assumes "keyspace_inv r"
  shows "\<exists>conversation.
           fst (create_conversation cid now_iso now_ts title r) = Inr conversation
           \<and> wf_conversation cid conversation"
    and "keyspace_inv (snd (create_conversation cid now_iso now_ts title r))"
proof -
  let ?conv = "JDict [(''id'', JStr cid), (''title'', title), (''messages'', JList []),
                      (''created_at'', JStr now_iso), (''updated_at'', JStr now_iso)]"
  have wf: "wf_conversation cid ?conv"
    by (simp add: wf_conversation_def)
  have idx: "index_ok r"
    using assms by (simp add: keyspace_inv_def)
  have res: "create_conversation cid now_iso now_ts title r
      = (Inr ?conv,
         r(conversation_key cid \<mapsto> RString ?conv,
           CONVERSATION_LIST_KEY \<mapsto> RZSet (zset_add cid now_ts (index_entries r))))"
    using idx by (simp add: create_conversation_def Let_def redis_zadd_index) (simp add: redis_set_def)
  show "\<exists>conversation.
           fst (create_conversation cid now_iso now_ts title r) = Inr conversation
           \<and> wf_conversation cid conversation"
    using wf by (simp add: res)
  show "keyspace_inv (snd (create_conversation cid now_iso now_ts title r))"
    using keyspace_inv_write [OF assms wf] by (simp add: res)
qed

lemma delete_conversation_inv:
  assumes "keyspace_inv r"
  shows "keyspace_inv (snd (delete_conversation cid r))"
proof -
  have "snd (delete_conversation cid r) = r(conversation_key cid := None)"
    by (auto simp: delete_conversation_def redis_delete_def split: option.splits)
  moreover have "keyspace_inv (r(conversation_key cid := None))"
    using assms
    by (auto simp: keyspace_inv_def index_ok_def index_entries_def)
  ultimately show ?thesis
    by simp
qed

lemma save_conversation_messages_inv:
  assumes "keyspace_inv r"
  shows "keyspace_inv (snd (save_conversation_messages now_iso now_ts cid messages r))"
proof (cases "r (conversation_key cid)")
  case None
  with assms show ?thesis
    by (simp add: save_conversation_messages_def redis_get_def)
next
  case (Some v)
  from keyspace_inv_record [OF assms Some] obtain conversation where
    v: "v = RString conversation" and wf: "wf_conversation cid conversation"
    by blast
  have idx: "index_ok r"
    using assms by (simp add: keyspace_inv_def)
  have "save_conversation_messages now_iso now_ts cid messages r
     = (Inr (),
        r(conversation_key cid \<mapsto> RString (saved_record now_iso messages conversation),
          CONVERSATION_LIST_KEY \<mapsto>
            RZSet (zset_add cid now_ts
                     (case r CONVERSATION_LIST_KEY of Some (RZSet zs) \<Rightarrow> zs | _ \<Rightarrow> []))))"
    using Some v wf idx by (intro save_conversation_messages_ok wf_conversation_id) simp_all
  then show ?thesis
    using keyspace_inv_write [OF assms wf_conversation_saved [OF wf]]
    by (simp add: index_entries_def)
qed

lemma non_stream_chat_inv:
  assumes "keyspace_inv r"
  shows "keyspace_inv (snd (non_stream_chat dial_client now_iso now_ts cid messages r))"
proof (cases "response dial_client messages")
  case (Inl e)
  with assms show ?thesis
    by (simp add: non_stream_chat_def)
next
  case (Inr res)
  then have "snd (non_stream_chat dial_client now_iso now_ts cid messages r)
      = snd (save_conversation_messages now_iso now_ts cid (snd res) r)"
    by (simp add: non_stream_chat_def split: prod.splits sum.splits)
  with save_conversation_messages_inv [OF assms] show ?thesis
    by simp
qed

lemma chat_inv:
  assumes "keyspace_inv r"
  shows "keyspace_inv (snd (chat dial_client now_iso now_ts user_message cid stream r))"
proof -
  have step: "keyspace_inv r'"
    if "non_stream_chat dial_client now_iso now_ts cid messages r = (res, r')"
    for messages res r'
    using non_stream_chat_inv [OF assms, of dial_client now_iso now_ts cid messages] that
    by simp
  show ?thesis
    using assms
    by (auto simp: chat_def Let_def dest: step split: sum.splits option.splits prod.splits)
qed

lemma anext_inv:
  assumes "keyspace_inv r"
  shows "keyspace_inv (snd (anext dial_client now_iso now_ts g r))"
proof -
  have step: "keyspace_inv r'"
    if "save_conversation_messages now_iso now_ts (gen_conversation_id g) messages r = (res, r')"
    for messages res r'
    using save_conversation_messages_inv
            [OF assms, of now_iso now_ts "gen_conversation_id g" messages] that
    by simp
  show ?thesis
    using assms
    by (auto simp: anext_def stream_loop_def stream_finish_def dest: step
        split: phase.splits list.splits sum.splits prod.splits)
qed

lemma chat_on_record:
  assumes "keyspace_inv r" and "r (conversation_key cid) \<noteq> None"
  shows "\<exists>conversation history.
           r (conversation_key cid) = Some (RString conversation)
           \<and> getitem conversation ''id'' = Inr (JStr cid)
           \<and> index_ok r
           \<and> reconstruct_messages conversation = Inr history"
proof -
  from assms(2) obtain v where v: "r (conversation_key cid) = Some v"
    by blast
  from keyspace_inv_record [OF assms(1) v] obtain conversation where
    "v = RString conversation" and wf: "wf_conversation cid conversation"
    by blast
  moreover from wf_conversation_reconstruct [OF wf] obtain history where
    "reconstruct_messages conversation = Inr history"
    by blast
  moreover have "index_ok r"
    using assms(1) by (simp add: keyspace_inv_def)
  ultimately show ?thesis
    using v wf_conversation_id [OF wf] by blast
qed


lemma drain_inv:
  "keyspace_inv r \<Longrightarrow> keyspace_inv (snd (drain dial_client now_iso now_ts g r))"
proof (induction dial_client now_iso now_ts g r rule: drain.induct)
  case (1 dial_client now_iso now_ts g r)
  obtain res g' r' where step: "anext dial_client now_iso now_ts g r = ((res, g'), r')"
    by (metis surj_pair)
  have inv': "keyspace_inv r'"
    using anext_inv [OF "1.prems", of dial_client now_iso now_ts g] step by simp
  show ?case
  proof (cases res)
    case (Yielded c)
    with "1.IH" [OF step [symmetric, unfolded Yielded] refl refl inv'] step show ?thesis
      by (subst drain.simps) (auto split: prod.splits)
  next
    case StopAsyncIteration
    with inv' step show ?thesis
      by (subst drain.simps) simp
  next
    case (Raised e)
    with inv' step show ?thesis
      by (subst drain.simps) simp
  qed
qed

end
